theory Spec2Isabelle
  imports Complex_Main
begin

section \<open>Restricted Boltzmann Machine (shogun/neuralnets/RBM.cpp)\<close>

text \<open>
  Modelling conventions.
  \<^item> \<open>float64_t\<close> is modelled by \<open>real\<close>: rounding, overflow to infinity and NaN are outside
    the model, so every statement about values is a statement of exact arithmetic.
  \<^item> \<open>int32_t\<close> is modelled by \<open>int\<close>; signed overflow is undefined behaviour in C++ and is
    outside the model.  A loop \<open>for (int32_t i=0; i<n; i++)\<close> is a \<open>fold\<close> over
    \<open>[0..<nat n]\<close>, which runs zero times for \<open>n \<le> 0\<close> as the C++ loop does.
  \<^item> \<open>SGMatrix<float64_t>\<close> is a flat array with its two dimensions; \<open>M(i,j)\<close> is the entry
    \<open>j * num_rows + i\<close> (column-major).  A matrix passed by value shares its storage with
    the caller's, so a function that writes into an argument returns the written matrix
    and the caller stores it back.
  \<^item> The random engine \<open>m_prng\<close> is a field of the state; the distributions applied to it
    (declared outside this file) are taken as a parameter of type \<open>'g prng_ops\<close>.
  \<^item> The classes \<open>SGMatrix\<close> and \<open>SGVector\<close> are declared outside this file.  The content of
    a fresh allocation \<open>SGMatrix<float64_t>(r, c)\<close> or \<open>SGVector<float64_t>(n)\<close> is taken to
    be zero.  The Eigen expressions are written out entry by entry, and the messages of
    \<open>io::info\<close> are not part of the model.
\<close>

subsection \<open>Data\<close>

datatype ERBMVisibleUnitType = RBMVUT_BINARY | RBMVUT_SOFTMAX | RBMVUT_GAUSSIAN

datatype ERBMMonitoringMethod = RBMMM_RECONSTRUCTION_ERROR | RBMMM_PSEUDO_LIKELIHOOD

record SGMatrix =
  matrix :: "real list"
  num_rows :: nat
  num_cols :: nat

record 'g prng_ops =
  uniform_prob :: "'g \<Rightarrow> real \<times> 'g"
  uniform_int :: "int \<Rightarrow> int \<Rightarrow> 'g \<Rightarrow> int \<times> 'g"
  normal_dist :: "real \<Rightarrow> real \<Rightarrow> 'g \<Rightarrow> real \<times> 'g"

record 'g RBM =
  cd_num_steps :: int
  cd_persistent :: bool
  cd_sample_visible :: bool
  l2_coefficient :: real
  l1_coefficient :: real
  monitoring_method :: ERBMMonitoringMethod
  monitoring_interval :: int
  gd_mini_batch_size :: int
  max_num_epochs :: int
  gd_learning_rate :: real
  gd_learning_rate_decay :: real
  gd_momentum :: real
  m_num_hidden :: int
  m_num_visible :: int
  m_num_visible_groups :: int
  m_visible_group_sizes :: "int list"
  m_visible_group_types :: "ERBMVisibleUnitType list"
  m_visible_state_offsets :: "int list"
  m_num_params :: int
  m_params :: "real list"
  m_batch_size :: int
  hidden_state :: SGMatrix
  visible_state :: SGMatrix
  m_prng :: 'g

definition empty_matrix :: SGMatrix where
  "empty_matrix = \<lparr>matrix = [], num_rows = 0, num_cols = 0\<rparr>"

text \<open>\<open>SGMatrix<float64_t>(r, c)\<close>: a fresh zero-filled matrix.\<close>

definition new_matrix :: "int \<Rightarrow> int \<Rightarrow> SGMatrix" where
  "new_matrix r c = \<lparr>matrix = replicate (nat r * nat c) 0, num_rows = nat r, num_cols = nat c\<rparr>"

definition mat_at :: "SGMatrix \<Rightarrow> nat \<Rightarrow> nat \<Rightarrow> real" where
  "mat_at M i j = matrix M ! (j * num_rows M + i)"

definition mat_set :: "SGMatrix \<Rightarrow> nat \<Rightarrow> nat \<Rightarrow> real \<Rightarrow> SGMatrix" where
  "mat_set M i j v = M\<lparr>matrix := (matrix M)[j * num_rows M + i := v]\<rparr>"

subsection \<open>Construction and the unit-group registry\<close>

definition init :: "'g \<Rightarrow> 'g RBM" where
  "init g = \<lparr>
     cd_num_steps = 1,
     cd_persistent = True,
     cd_sample_visible = False,
     l2_coefficient = 0,
     l1_coefficient = 0,
     monitoring_method = RBMMM_RECONSTRUCTION_ERROR,
     monitoring_interval = 10,
     gd_mini_batch_size = 0,
     max_num_epochs = 1,
     gd_learning_rate = 0.1,
     gd_learning_rate_decay = 1,
     gd_momentum = 0.9,
     m_num_hidden = 0,
     m_num_visible = 0,
     m_num_visible_groups = 0,
     m_visible_group_sizes = [],
     m_visible_group_types = [],
     m_visible_state_offsets = [],
     m_num_params = 0,
     m_params = [],
     m_batch_size = 0,
     hidden_state = empty_matrix,
     visible_state = empty_matrix,
     m_prng = g\<rparr>"

definition add_visible_group :: "int \<Rightarrow> ERBMVisibleUnitType \<Rightarrow> 'g RBM \<Rightarrow> 'g RBM" where
  "add_visible_group num_units unit_type s =
     (let s1 = s\<lparr>m_num_visible_groups := m_num_visible_groups s + 1,
                  m_num_visible := m_num_visible s + num_units,
                  m_visible_group_sizes := m_visible_group_sizes s @ [num_units],
                  m_visible_group_types := m_visible_group_types s @ [unit_type]\<rparr>;
          n = length (m_visible_state_offsets s1)
      in if n = 0
         then s1\<lparr>m_visible_state_offsets := m_visible_state_offsets s1 @ [0]\<rparr>
         else s1\<lparr>m_visible_state_offsets := m_visible_state_offsets s1 @
                [m_visible_state_offsets s1 ! (n - 1) + m_visible_group_sizes s1 ! (n - 1)]\<rparr>)"

text \<open>The three constructors.\<close>

definition RBM_default :: "'g \<Rightarrow> 'g RBM" where
  "RBM_default g = init g"

definition RBM_hidden :: "int \<Rightarrow> 'g \<Rightarrow> 'g RBM" where
  "RBM_hidden num_hidden g = (init g)\<lparr>m_num_hidden := num_hidden\<rparr>"

definition RBM_hidden_visible :: "int \<Rightarrow> int \<Rightarrow> ERBMVisibleUnitType \<Rightarrow> 'g \<Rightarrow> 'g RBM" where
  "RBM_hidden_visible num_hidden num_visible visible_unit_type g =
     add_visible_group num_visible visible_unit_type ((init g)\<lparr>m_num_hidden := num_hidden\<rparr>)"

text \<open>A sequence of \<open>add_visible_group\<close> calls, in order.\<close>

definition add_visible_groups :: "(int \<times> ERBMVisibleUnitType) list \<Rightarrow> 'g RBM \<Rightarrow> 'g RBM" where
  "add_visible_groups calls s = fold (\<lambda>(n, t). add_visible_group n t) calls s"

text \<open>The registry invariant: the three vectors have one entry per group, the sizes add up
  to \<open>m_num_visible\<close>, and the offsets are the running sums of the sizes.\<close>

definition registry_inv :: "'g RBM \<Rightarrow> bool" where
  "registry_inv s \<longleftrightarrow>
     length (m_visible_group_sizes s) = length (m_visible_state_offsets s) \<and>
     length (m_visible_group_types s) = length (m_visible_state_offsets s) \<and>
     m_num_visible_groups s = int (length (m_visible_state_offsets s)) \<and>
     sum_list (m_visible_group_sizes s) = m_num_visible s \<and>
     (\<forall>k < length (m_visible_state_offsets s).
        m_visible_state_offsets s ! k = sum_list (take k (m_visible_group_sizes s)))"

subsection \<open>Batch state\<close>

text \<open>\<open>reset_chain\<close>: every entry of the visible state, row by row, is set to the outcome of
  one fresh uniform draw compared with 0.5.  \<open>chain_body\<close> is the assignment
  \<open>visible_state(i,j) = m_uniform_prob(m_prng) > 0.5\<close>.\<close>

definition chain_body :: "'g prng_ops \<Rightarrow> nat \<Rightarrow> nat \<Rightarrow> SGMatrix \<times> 'g \<Rightarrow> SGMatrix \<times> 'g" where
  "chain_body ops i j =
     (\<lambda>(vs, g). let (u, g') = uniform_prob ops g
                 in (mat_set vs i j (if u > 0.5 then 1 else 0), g'))"

definition reset_chain :: "'g prng_ops \<Rightarrow> 'g RBM \<Rightarrow> 'g RBM" where
  "reset_chain ops s =
     (let (vs, g) = fold (\<lambda>i. fold (chain_body ops i) [0..<nat (m_batch_size s)])
                      [0..<nat (m_num_visible s)] (visible_state s, m_prng s)
      in s\<lparr>visible_state := vs, m_prng := g\<rparr>)"

definition set_batch_size :: "'g prng_ops \<Rightarrow> int \<Rightarrow> 'g RBM \<Rightarrow> 'g RBM" where
  "set_batch_size ops batch_size s =
     (if m_batch_size s = batch_size then s
      else reset_chain ops
             (s\<lparr>m_batch_size := batch_size,
                hidden_state := new_matrix (m_num_hidden s) batch_size,
                visible_state := new_matrix (m_num_visible s) batch_size\<rparr>))"

subsection \<open>Views into the parameter vector\<close>

text \<open>
  \<open>get_weights(p)\<close>, \<open>get_hidden_bias(p)\<close> and \<open>get_visible_bias(p)\<close> return non-owning views:
  a pointer into \<open>m_params\<close> when \<open>p\<close> is empty (the default argument) and into \<open>p\<close> otherwise,
  with the dimensions of the block.  A view is modelled by the vector it points into,
  the position of its first entry and its dimensions.
\<close>

record param_view =
  into_params :: bool
  view_start :: nat
  view_rows :: nat
  view_cols :: nat

definition get_weights :: "'g RBM \<Rightarrow> real list \<Rightarrow> param_view" where
  "get_weights s p =
     \<lparr>into_params = (length p = 0),
      view_start = nat (m_num_visible s),
      view_rows = nat (m_num_hidden s),
      view_cols = nat (m_num_visible s)\<rparr>"

definition get_hidden_bias :: "'g RBM \<Rightarrow> real list \<Rightarrow> param_view" where
  "get_hidden_bias s p =
     \<lparr>into_params = (length p = 0),
      view_start = nat (m_num_visible s + m_num_visible s * m_num_hidden s),
      view_rows = nat (m_num_hidden s),
      view_cols = 1\<rparr>"

definition get_visible_bias :: "'g RBM \<Rightarrow> real list \<Rightarrow> param_view" where
  "get_visible_bias s p =
     \<lparr>into_params = (length p = 0),
      view_start = 0,
      view_rows = nat (m_num_visible s),
      view_cols = 1\<rparr>"

definition view_vec :: "'g RBM \<Rightarrow> real list \<Rightarrow> param_view \<Rightarrow> real list" where
  "view_vec s p v = (if into_params v then m_params s else p)"

definition view_at :: "'g RBM \<Rightarrow> real list \<Rightarrow> param_view \<Rightarrow> nat \<Rightarrow> real" where
  "view_at s p v t = view_vec s p v ! (view_start v + t)"

text \<open>\<open>Eigen::Map<MatrixXd>(ptr, rows, cols)(i, j)\<close>: column-major with the given row count.\<close>

definition eigen_map_at :: "real list \<Rightarrow> nat \<Rightarrow> nat \<Rightarrow> nat \<Rightarrow> real" where
  "eigen_map_at xs rows i j = xs ! (j * rows + i)"

text \<open>The three maps every inference routine builds from the default views:
  \<open>EMatrix W(get_weights().matrix, m_num_hidden, m_num_visible)\<close>,
  \<open>EVector B(get_visible_bias().vector, m_num_visible)\<close>,
  \<open>EVector C(get_hidden_bias().vector, m_num_hidden)\<close>.\<close>

definition W_map :: "'g RBM \<Rightarrow> nat \<Rightarrow> nat \<Rightarrow> real" where
  "W_map s i k = view_at s [] (get_weights s []) (k * nat (m_num_hidden s) + i)"

definition B_map :: "'g RBM \<Rightarrow> nat \<Rightarrow> real" where
  "B_map s k = view_at s [] (get_visible_bias s []) k"

definition C_map :: "'g RBM \<Rightarrow> nat \<Rightarrow> real" where
  "C_map s i = view_at s [] (get_hidden_bias s []) i"

text \<open>An element-wise assignment of \<open>n\<close> consecutive entries starting at \<open>start\<close> (an Eigen
  assignment through a map, or a loop over a flat array).\<close>

definition write_range :: "nat \<Rightarrow> nat \<Rightarrow> (nat \<Rightarrow> real) \<Rightarrow> real list \<Rightarrow> real list" where
  "write_range start n f xs = fold (\<lambda>t ys. ys[start + t := f t]) [0..<n] xs"

text \<open>\<open>random::fill_array(v, dist, prng)\<close>: one draw per entry, in order.\<close>

definition fill_array :: "('g \<Rightarrow> 'a \<times> 'g) \<Rightarrow> nat \<Rightarrow> 'g \<Rightarrow> 'a list \<times> 'g" where
  "fill_array draw n g = fold (\<lambda>t (xs, g). let (x, g') = draw g in (xs @ [x], g')) [0..<n] ([], g)"

definition initialize_neural_network :: "'g prng_ops \<Rightarrow> real \<Rightarrow> 'g RBM \<Rightarrow> 'g RBM" where
  "initialize_neural_network ops sigma s =
     (let n = m_num_visible s + m_num_hidden s + m_num_visible s * m_num_hidden s;
          (ps, g) = fill_array (normal_dist ops 0 sigma) (nat n) (m_prng s)
      in s\<lparr>m_num_params := n, m_params := ps, m_prng := g\<rparr>)"

subsection \<open>Inference engine\<close>

text \<open>Row \<open>i + offset\<close> of a group block.\<close>

definition group_row :: "int \<Rightarrow> nat \<Rightarrow> nat" where
  "group_row offset i = nat (int i + offset)"

definition mean_hidden :: "'g RBM \<Rightarrow> SGMatrix \<Rightarrow> SGMatrix \<Rightarrow> SGMatrix" where
  "mean_hidden s visible result =
     (let rows = num_rows result; cols = num_cols result;
          V = eigen_map_at (matrix visible) (num_rows visible);
          H1 = write_range 0 (rows * cols) (\<lambda>t. C_map s (t mod rows)) (matrix result);
          H2 = write_range 0 (rows * cols)
                 (\<lambda>t. H1 ! t + (\<Sum>k<nat (m_num_visible s). W_map s (t mod rows) k * V k (t div rows))) H1;
          len = rows * cols
      in result\<lparr>matrix := fold (\<lambda>i xs. xs[i := 1 / (1 + exp (-1 * xs ! i))]) [0..<len] H2\<rparr>)"

text \<open>The Binary branch of \<open>mean_visible\<close>: the logistic function on every entry of the
  block of \<open>sz\<close> rows from \<open>offset\<close> and \<open>bs\<close> columns.\<close>

definition sigmoid_block :: "int \<Rightarrow> nat \<Rightarrow> nat \<Rightarrow> SGMatrix \<Rightarrow> SGMatrix" where
  "sigmoid_block offset sz bs result =
     fold (\<lambda>i. fold (\<lambda>j R. mat_set R (group_row offset i) j
                             (1 / (1 + exp (-1 * mat_at R (group_row offset i) j))))
                  [0..<bs])
       [0..<sz] result"

text \<open>The Softmax branch of \<open>mean_visible\<close>.  \<open>block_max\<close> is the loop for \<open>max\<close>, which starts
  at \<open>result(offset,0)\<close> and runs over all rows and all columns of the block;
  \<open>softmax_column\<close> is the body of the loop over the columns.\<close>

definition block_max :: "int \<Rightarrow> nat \<Rightarrow> nat \<Rightarrow> SGMatrix \<Rightarrow> real" where
  "block_max offset sz bs result =
     fold (\<lambda>i. fold (\<lambda>j m. if mat_at result (group_row offset i) j > m
                             then mat_at result (group_row offset i) j else m)
                  [0..<bs])
       [0..<sz] (mat_at result (nat offset) 0)"

definition softmax_column :: "int \<Rightarrow> nat \<Rightarrow> real \<Rightarrow> nat \<Rightarrow> SGMatrix \<Rightarrow> SGMatrix" where
  "softmax_column offset sz mx j R =
     (let total = fold (\<lambda>i a. a + exp (mat_at R (group_row offset i) j - mx)) [0..<sz] 0;
          normalizer = ln total
      in fold (\<lambda>i R'. mat_set R' (group_row offset i) j
                        (exp (mat_at R' (group_row offset i) j - mx - normalizer)))
           [0..<sz] R)"

definition softmax_block :: "int \<Rightarrow> nat \<Rightarrow> nat \<Rightarrow> SGMatrix \<Rightarrow> SGMatrix" where
  "softmax_block offset sz bs result =
     (let mx = block_max offset sz bs result
      in fold (softmax_column offset sz mx) [0..<bs] result)"

text \<open>The body of the loop over the groups in \<open>mean_visible\<close>, for group \<open>k\<close>.\<close>

definition mean_visible_group :: "'g RBM \<Rightarrow> nat \<Rightarrow> SGMatrix \<Rightarrow> SGMatrix" where
  "mean_visible_group s k result =
     (let offset = m_visible_state_offsets s ! k;
          sz = nat (m_visible_group_sizes s ! k);
          bs = nat (m_batch_size s);
          r1 = (if m_visible_group_types s ! k = RBMVUT_BINARY
                then sigmoid_block offset sz bs result else result)
      in if m_visible_group_types s ! k = RBMVUT_SOFTMAX
         then softmax_block offset sz bs r1 else r1)"

text \<open>The two Eigen statements at the head of \<open>mean_visible\<close>: \<open>V.colwise() = B\<close> and
  \<open>V += W.transpose()*H\<close>, through the map \<open>V\<close> of the result.\<close>

definition linear_stage :: "'g RBM \<Rightarrow> SGMatrix \<Rightarrow> SGMatrix \<Rightarrow> SGMatrix" where
  "linear_stage s hidden result =
     (let rows = num_rows result; cols = num_cols result;
          H = eigen_map_at (matrix hidden) (num_rows hidden);
          V1 = write_range 0 (rows * cols) (\<lambda>t. B_map s (t mod rows)) (matrix result);
          V2 = write_range 0 (rows * cols)
                 (\<lambda>t. V1 ! t + (\<Sum>i<nat (m_num_hidden s). W_map s i (t mod rows) * H i (t div rows))) V1
      in result\<lparr>matrix := V2\<rparr>)"

definition mean_visible :: "'g RBM \<Rightarrow> SGMatrix \<Rightarrow> SGMatrix \<Rightarrow> SGMatrix" where
  "mean_visible s hidden result =
     fold (mean_visible_group s) [0..<nat (m_num_visible_groups s)] (linear_stage s hidden result)"

text \<open>
  The sampling routines take the means and the matrix to write.  Every call in this file
  passes the same matrix for both (\<open>sample_hidden(hidden_state, hidden_state)\<close>,
  \<open>sample_visible(visible_state, visible_state)\<close>), and the two then share their storage:
  a read of the mean sees what has been written to the result.  \<open>Same_as_result\<close> stands
  for that call shape, \<open>Distinct M\<close> for a mean with storage of its own.
\<close>

datatype mean_arg = Same_as_result | Distinct SGMatrix

definition mean_flat :: "mean_arg \<Rightarrow> real list \<Rightarrow> nat \<Rightarrow> real" where
  "mean_flat mean xs i = (case mean of Same_as_result \<Rightarrow> xs ! i | Distinct M \<Rightarrow> matrix M ! i)"

definition mean_at :: "mean_arg \<Rightarrow> SGMatrix \<Rightarrow> nat \<Rightarrow> nat \<Rightarrow> real" where
  "mean_at mean R i j = (case mean of Same_as_result \<Rightarrow> mat_at R i j | Distinct M \<Rightarrow> mat_at M i j)"

definition sample_hidden :: "'g prng_ops \<Rightarrow> mean_arg \<Rightarrow> SGMatrix \<Rightarrow> 'g \<Rightarrow> SGMatrix \<times> 'g" where
  "sample_hidden ops mean result g =
     (let len = num_rows result * num_cols result;
          (xs, g') = fold (\<lambda>i (xs, g).
                        let (u, g1) = uniform_prob ops g
                        in (xs[i := (if u < mean_flat mean xs i then 1 else 0)], g1))
                      [0..<len] (matrix result, g)
      in (result\<lparr>matrix := xs\<rparr>, g'))"

text \<open>The inner loop of the Softmax branch of \<open>sample_visible\<close> for column \<open>j\<close> and draw \<open>r\<close>:
  it accumulates the means and leaves at the first unit whose cumulative sum reaches \<open>r\<close>.\<close>

fun softmax_pick :: "mean_arg \<Rightarrow> int \<Rightarrow> nat \<Rightarrow> int \<Rightarrow> nat list \<Rightarrow> real \<Rightarrow> SGMatrix \<Rightarrow> SGMatrix" where
  "softmax_pick mean offset j r [] acc R = R"
| "softmax_pick mean offset j r (i # rest) acc R =
     (let acc' = acc + mean_at mean R (group_row offset i) j
      in if real_of_int r \<le> acc' then mat_set R (group_row offset i) j 1
         else softmax_pick mean offset j r rest acc' R)"

text \<open>The Binary branch of \<open>sample_visible(index, mean, result)\<close>: one uniform draw per
  entry of the block, compared with the mean.\<close>

definition sample_binary_block ::
  "'g prng_ops \<Rightarrow> mean_arg \<Rightarrow> int \<Rightarrow> nat \<Rightarrow> nat \<Rightarrow> SGMatrix \<times> 'g \<Rightarrow> SGMatrix \<times> 'g" where
  "sample_binary_block ops mean offset sz bs rg =
     fold (\<lambda>i. fold (\<lambda>j (R, g).
                  let (u, g') = uniform_prob ops g
                  in (mat_set R (group_row offset i) j
                        (if u < mean_at mean R (group_row offset i) j then 1 else 0), g'))
                [0..<bs])
       [0..<sz] rg"

text \<open>The Softmax branch: the block is zeroed, then every column gets one draw of
  \<open>UniformIntDistribution<int32_t>(0, 1)\<close> and the pick made with it.\<close>

definition zero_block :: "int \<Rightarrow> nat \<Rightarrow> nat \<Rightarrow> SGMatrix \<Rightarrow> SGMatrix" where
  "zero_block offset sz bs result =
     fold (\<lambda>i. fold (\<lambda>j R. mat_set R (group_row offset i) j 0) [0..<bs]) [0..<sz] result"

definition sample_softmax_block ::
  "'g prng_ops \<Rightarrow> mean_arg \<Rightarrow> int \<Rightarrow> nat \<Rightarrow> nat \<Rightarrow> SGMatrix \<times> 'g \<Rightarrow> SGMatrix \<times> 'g" where
  "sample_softmax_block ops mean offset sz bs rg =
     fold (\<lambda>j (R, g).
             let (r, g') = uniform_int ops 0 1 g
             in (softmax_pick mean offset j r [0..<sz] 0 R, g'))
       [0..<bs] (zero_block offset sz bs (fst rg), snd rg)"

text \<open>\<open>sample_visible(index, mean, result)\<close>.\<close>

definition sample_visible_group ::
  "'g prng_ops \<Rightarrow> 'g RBM \<Rightarrow> nat \<Rightarrow> mean_arg \<Rightarrow> SGMatrix \<Rightarrow> 'g \<Rightarrow> SGMatrix \<times> 'g" where
  "sample_visible_group ops s index mean result g =
     (let offset = m_visible_state_offsets s ! index;
          sz = nat (m_visible_group_sizes s ! index);
          bs = nat (m_batch_size s);
          rg1 = (if m_visible_group_types s ! index = RBMVUT_BINARY
                 then sample_binary_block ops mean offset sz bs (result, g)
                 else (result, g))
      in if m_visible_group_types s ! index = RBMVUT_SOFTMAX
         then sample_softmax_block ops mean offset sz bs rg1
         else rg1)"

text \<open>\<open>sample_visible(mean, result)\<close>: all groups in order.\<close>

definition sample_visible ::
  "'g prng_ops \<Rightarrow> 'g RBM \<Rightarrow> mean_arg \<Rightarrow> SGMatrix \<Rightarrow> 'g \<Rightarrow> SGMatrix \<times> 'g" where
  "sample_visible ops s mean result g =
     fold (\<lambda>k (R, g). sample_visible_group ops s k mean R g)
       [0..<nat (m_num_visible_groups s)] (result, g)"

subsection \<open>Generative sampling\<close>

text \<open>
  \<open>Fatal\<close> is a failed \<open>require\<close> or a call of \<open>error\<close>: the message template and the values
  formatted into it.  \<open>Undefined_access\<close> marks a read of a \<open>std::vector\<close> at an index
  outside it, which is undefined behaviour in C++.  A routine that can fail returns
  its outcome together with the state it leaves behind, since the model object keeps
  every write made before the failure.
\<close>

datatype error = Fatal string "int list" | Undefined_access

definition vec_at :: "'a list \<Rightarrow> int \<Rightarrow> 'a option" where
  "vec_at xs i = (if 0 \<le> i \<and> i < int (length xs) then Some (xs ! nat i) else None)"

text \<open>One Gibbs step of \<open>sample\<close>, for loop index \<open>i\<close>.\<close>

definition sample_step :: "'g prng_ops \<Rightarrow> int \<Rightarrow> nat \<Rightarrow> 'g RBM \<Rightarrow> 'g RBM" where
  "sample_step ops num_gibbs_steps i s =
     (let s1 = s\<lparr>hidden_state := mean_hidden s (visible_state s) (hidden_state s)\<rparr>;
          (h, g) = sample_hidden ops Same_as_result (hidden_state s1) (m_prng s1);
          s2 = s1\<lparr>hidden_state := h, m_prng := g\<rparr>;
          s3 = s2\<lparr>visible_state := mean_visible s2 (hidden_state s2) (visible_state s2)\<rparr>
      in if int i < num_gibbs_steps - 1
         then (let (v, g') = sample_visible ops s3 Same_as_result (visible_state s3) (m_prng s3)
               in s3\<lparr>visible_state := v, m_prng := g'\<rparr>)
         else s3)"

definition sample :: "'g prng_ops \<Rightarrow> int \<Rightarrow> int \<Rightarrow> 'g RBM \<Rightarrow> 'g RBM" where
  "sample ops num_gibbs_steps batch_size s =
     fold (sample_step ops num_gibbs_steps) [0..<nat num_gibbs_steps]
       (set_batch_size ops batch_size s)"

text \<open>The copy of the rows of one group out of the visible state (the tail of
  \<open>sample_group\<close> and of \<open>sample_group_with_evidence\<close>).\<close>

definition copy_group :: "'g RBM \<Rightarrow> int \<Rightarrow> int \<Rightarrow> SGMatrix" where
  "copy_group s sz offset =
     fold (\<lambda>i. fold (\<lambda>j R. mat_set R i j (mat_at (visible_state s) (group_row offset i) j))
                  [0..<nat (m_batch_size s)])
       [0..<nat sz] (new_matrix sz (m_batch_size s))"

definition extract_group :: "'g RBM \<Rightarrow> int \<Rightarrow> (error + SGMatrix) \<times> 'g RBM" where
  "extract_group s V =
     (case (vec_at (m_visible_group_sizes s) V, vec_at (m_visible_state_offsets s) V) of
        (Some sz, Some offset) \<Rightarrow> (Inr (copy_group s sz offset), s)
      | _ \<Rightarrow> (Inl Undefined_access, s))"

definition sample_group ::
  "'g prng_ops \<Rightarrow> int \<Rightarrow> int \<Rightarrow> int \<Rightarrow> 'g RBM \<Rightarrow> (error + SGMatrix) \<times> 'g RBM" where
  "sample_group ops V num_gibbs_steps batch_size s =
     (if \<not> V < m_num_visible_groups s
      then (Inl (Fatal ''Visible group index ({}) out of bounds ({})'' [V, m_num_visible s]), s)
      else extract_group (sample ops num_gibbs_steps batch_size s) V)"

text \<open>The clamp loop of \<open>sample_with_evidence\<close>: the rows of group \<open>E\<close> are overwritten with
  the evidence.\<close>

definition clamp_evidence :: "'g RBM \<Rightarrow> int \<Rightarrow> int \<Rightarrow> SGMatrix \<Rightarrow> SGMatrix \<Rightarrow> SGMatrix" where
  "clamp_evidence s sz offset evidence_matrix vs =
     fold (\<lambda>i. fold (\<lambda>j R. mat_set R (group_row offset i) j (mat_at evidence_matrix i j))
                  [0..<nat (m_batch_size s)])
       [0..<nat sz] vs"

definition evidence_step ::
  "'g prng_ops \<Rightarrow> int \<Rightarrow> int \<Rightarrow> int \<Rightarrow> SGMatrix \<Rightarrow> int \<Rightarrow> nat \<Rightarrow> 'g RBM \<Rightarrow> 'g RBM" where
  "evidence_step ops E sz offset evidence_matrix num_gibbs_steps n s =
     (let s1 = s\<lparr>hidden_state := mean_hidden s (visible_state s) (hidden_state s)\<rparr>;
          (h, g) = sample_hidden ops Same_as_result (hidden_state s1) (m_prng s1);
          s2 = s1\<lparr>hidden_state := h, m_prng := g\<rparr>;
          s3 = s2\<lparr>visible_state := mean_visible s2 (hidden_state s2) (visible_state s2)\<rparr>;
          s4 = (if int n < num_gibbs_steps - 1
                then fold (\<lambda>k s'. if int k \<noteq> E
                             then (let (v, g') = sample_visible_group ops s' k Same_as_result
                                                   (visible_state s') (m_prng s')
                                   in s'\<lparr>visible_state := v, m_prng := g'\<rparr>)
                             else s')
                       [0..<nat (m_num_visible_groups s3)] s3
                else s3)
      in s4\<lparr>visible_state := clamp_evidence s4 sz offset evidence_matrix (visible_state s4)\<rparr>)"

definition sample_with_evidence ::
  "'g prng_ops \<Rightarrow> int \<Rightarrow> SGMatrix \<Rightarrow> int \<Rightarrow> 'g RBM \<Rightarrow> error option \<times> 'g RBM" where
  "sample_with_evidence ops E evidence num_gibbs_steps s =
     (if \<not> E < m_num_visible_groups s
      then (Some (Fatal ''Visible group index ({}) out of bounds ({})'' [E, m_num_visible s]), s)
      else
        (let s1 = set_batch_size ops (int (num_cols evidence)) s
         in case (vec_at (m_visible_state_offsets s1) E, vec_at (m_visible_group_sizes s1) E) of
              (Some offset, Some sz) \<Rightarrow>
                (let s2 = s1\<lparr>visible_state := clamp_evidence s1 sz offset evidence (visible_state s1)\<rparr>
                 in (None, fold (evidence_step ops E sz offset evidence num_gibbs_steps)
                             [0..<nat num_gibbs_steps] s2))
            | _ \<Rightarrow> (Some Undefined_access, s1)))"

definition sample_group_with_evidence ::
  "'g prng_ops \<Rightarrow> int \<Rightarrow> int \<Rightarrow> SGMatrix \<Rightarrow> int \<Rightarrow> 'g RBM \<Rightarrow> (error + SGMatrix) \<times> 'g RBM" where
  "sample_group_with_evidence ops V E evidence num_gibbs_steps s =
     (if \<not> V < m_num_visible_groups s
      then (Inl (Fatal ''Visible group index ({}) out of bounds ({})'' [V, m_num_visible s]), s)
      else if \<not> E < m_num_visible_groups s
      then (Inl (Fatal ''Visible group index ({}) out of bounds ({})'' [E, m_num_visible s]), s)
      else
        (case sample_with_evidence ops E evidence num_gibbs_steps s of
           (Some e, s1) \<Rightarrow> (Inl e, s1)
         | (None, s1) \<Rightarrow> extract_group s1 V))"

subsection \<open>Energy and gradients\<close>

text \<open>
  \<open>free_energy(visible, buffer)\<close>.  The buffer is scratch storage: \<open>bv_buffer\<close> and
  \<open>wv_buffer\<close> are two maps of the same array, written one after the other.  A buffer with
  no rows (the default argument) is replaced by a fresh \<open>m_num_hidden \<times> m_batch_size\<close> one.
\<close>

definition free_energy :: "'g prng_ops \<Rightarrow> SGMatrix \<Rightarrow> SGMatrix \<Rightarrow> 'g RBM \<Rightarrow> real \<times> 'g RBM" where
  "free_energy ops visible buffer0 s0 =
     (let s = set_batch_size ops (int (num_cols visible)) s0;
          buffer = (if num_rows buffer0 = 0 then new_matrix (m_num_hidden s) (m_batch_size s)
                    else buffer0);
          nh = nat (m_num_hidden s); nv = nat (m_num_visible s); bs = nat (m_batch_size s);
          V = eigen_map_at (matrix visible) (num_rows visible);
          buf1 = write_range 0 bs (\<lambda>j. \<Sum>k<nv. B_map s k * V k j) (matrix buffer);
          bv_term = (\<Sum>j<bs. buf1 ! j);
          buf2 = write_range 0 (nh * bs) (\<lambda>t. C_map s (t mod nh)) buf1;
          buf3 = write_range 0 (nh * bs)
                   (\<lambda>t. buf2 ! t + (\<Sum>k<nv. W_map s (t mod nh) k * V k (t div nh))) buf2;
          wv_term = fold (\<lambda>i. fold (\<lambda>j a. a + ln (1 + exp (eigen_map_at buf3 nh i j))) [0..<bs])
                      [0..<nh] 0;
          F0 = -1 * (bv_term + wv_term) / real_of_int (m_batch_size s);
          F = fold (\<lambda>k F.
                 if m_visible_group_types s ! k = RBMVUT_GAUSSIAN
                 then (let offset = m_visible_state_offsets s ! k
                       in fold (\<lambda>i. fold (\<lambda>j F'. F' + 0.5 * (mat_at visible (group_row offset i) j)\<^sup>2
                                                    / real_of_int (m_batch_size s))
                                      [0..<bs])
                            [0..<nat (m_visible_group_sizes s ! k)] F)
                 else F)
               [0..<nat (m_num_visible_groups s)] F0
      in (F, s))"

text \<open>
  \<open>free_energy_gradients(visible, gradients, positive_phase, hidden_mean_given_visible)\<close>.
  The three gradient views point into \<open>gradients\<close>, or into \<open>m_params\<close> when \<open>gradients\<close> is
  empty; the routine returns the gradient vector and the state.
\<close>

definition free_energy_gradients ::
  "'g prng_ops \<Rightarrow> SGMatrix \<Rightarrow> real list \<Rightarrow> bool \<Rightarrow> SGMatrix \<Rightarrow> 'g RBM \<Rightarrow> real list \<times> 'g RBM" where
  "free_energy_gradients ops visible gradients positive_phase hidden_mean0 s0 =
     (let s = set_batch_size ops (int (num_cols visible)) s0;
          hidden_mean = (if num_rows hidden_mean0 = 0
                         then mean_hidden s visible (new_matrix (m_num_hidden s) (m_batch_size s))
                         else hidden_mean0);
          nh = nat (m_num_hidden s); nv = nat (m_num_visible s); bs = nat (m_batch_size s);
          b = real_of_int (m_batch_size s);
          V = eigen_map_at (matrix visible) (num_rows visible);
          PH = eigen_map_at (matrix hidden_mean) nh;
          WG = get_weights s gradients;
          BG = get_visible_bias s gradients;
          CG = get_hidden_bias s gradients;
          tgt = view_vec s gradients WG;
          tgt' =
            (if positive_phase
             then
               (let t1 = write_range (view_start WG) (nh * nv)
                           (\<lambda>t. -1 * (\<Sum>j<bs. PH (t mod nh) j * V (t div nh) j) / b) tgt;
                    t2 = write_range (view_start BG) nv
                           (\<lambda>k. -1 * (\<Sum>j<num_cols visible. V k j) / b) t1
                in write_range (view_start CG) nh (\<lambda>i. -1 * (\<Sum>j<bs. PH i j) / b) t2)
             else
               (let t1 = write_range (view_start WG) (nh * nv)
                           (\<lambda>t. tgt ! (view_start WG + t)
                                 + (\<Sum>j<bs. PH (t mod nh) j * V (t div nh) j) / b) tgt;
                    t2 = write_range (view_start BG) nv
                           (\<lambda>k. t1 ! (view_start BG + k) + (\<Sum>j<num_cols visible. V k j) / b) t1
                in write_range (view_start CG) nh
                     (\<lambda>i. t2 ! (view_start CG + i) + (\<Sum>j<bs. PH i j) / b) t2))
      in if into_params WG then (gradients, s\<lparr>m_params := tgt'\<rparr>) else (tgt', s))"

text \<open>The regularization step at the end of \<open>contrastive_divergence\<close>.\<close>

definition regularization :: "'g RBM \<Rightarrow> real list \<Rightarrow> real list" where
  "regularization s gradients =
     (let g1 = (if l2_coefficient s > 0
                then (let len = nat (m_num_hidden s * m_num_visible s)
                      in fold (\<lambda>i g.
                           g[nat (int i + m_num_visible s + m_num_hidden s) :=
                               g ! nat (int i + m_num_visible s + m_num_hidden s)
                               + l2_coefficient s
                                 * m_params s ! nat (int i + m_num_visible s + m_num_hidden s)])
                         [0..<len] gradients)
                else gradients)
      in if l1_coefficient s > 0
         then (let len = nat (m_num_hidden s * m_num_visible s)
               in fold (\<lambda>i g.
                    g[nat (int i + m_num_visible s + m_num_hidden s) :=
                        g ! nat (int i + m_num_visible s + m_num_hidden s)
                        + l1_coefficient s
                          * m_params s ! nat (int i + m_num_visible s + m_num_hidden s)])
                  [0..<len] g1)
         else g1)"

text \<open>One pass of the sampling loop of \<open>contrastive_divergence\<close>, for loop index \<open>i\<close>.\<close>

definition cd_step :: "'g prng_ops \<Rightarrow> nat \<Rightarrow> 'g RBM \<Rightarrow> 'g RBM" where
  "cd_step ops i s =
     (let s1 = (if i > 0 \<or> cd_persistent s
                then s\<lparr>hidden_state := mean_hidden s (visible_state s) (hidden_state s)\<rparr>
                else s);
          (h, g) = sample_hidden ops Same_as_result (hidden_state s1) (m_prng s1);
          s2 = s1\<lparr>hidden_state := h, m_prng := g\<rparr>;
          s3 = s2\<lparr>visible_state := mean_visible s2 (hidden_state s2) (visible_state s2)\<rparr>
      in if cd_sample_visible s3
         then (let (v, g') = sample_visible ops s3 Same_as_result (visible_state s3) (m_prng s3)
               in s3\<lparr>visible_state := v, m_prng := g'\<rparr>)
         else s3)"

definition contrastive_divergence ::
  "'g prng_ops \<Rightarrow> SGMatrix \<Rightarrow> real list \<Rightarrow> 'g RBM \<Rightarrow> real list \<times> 'g RBM" where
  "contrastive_divergence ops visible_batch gradients s0 =
     (let s1 = set_batch_size ops (int (num_cols visible_batch)) s0;
          s2 = s1\<lparr>hidden_state := mean_hidden s1 visible_batch (hidden_state s1)\<rparr>;
          (g1, s3) = free_energy_gradients ops visible_batch gradients True (hidden_state s2) s2;
          s4 = fold (cd_step ops) [0..<nat (cd_num_steps s3)] s3;
          s5 = s4\<lparr>hidden_state := mean_hidden s4 (visible_state s4) (hidden_state s4)\<rparr>;
          (g2, s6) = free_energy_gradients ops (visible_state s5) g1 False (hidden_state s5) s5
      in (regularization s6 g2, s6))"

definition reconstruction_error ::
  "'g prng_ops \<Rightarrow> SGMatrix \<Rightarrow> SGMatrix \<Rightarrow> 'g RBM \<Rightarrow> real \<times> 'g RBM" where
  "reconstruction_error ops visible buffer0 s0 =
     (let s = set_batch_size ops (int (num_cols visible)) s0;
          buffer = (if num_rows buffer0 = 0 then new_matrix (m_num_visible s) (m_batch_size s)
                    else buffer0);
          s1 = s\<lparr>hidden_state := mean_hidden s visible (hidden_state s)\<rparr>;
          (h, g) = sample_hidden ops Same_as_result (hidden_state s1) (m_prng s1);
          s2 = s1\<lparr>hidden_state := h, m_prng := g\<rparr>;
          buffer' = mean_visible s2 (hidden_state s2) buffer;
          len = nat (m_num_visible s2 * m_batch_size s2);
          err = fold (\<lambda>i e. e + (matrix buffer' ! i - matrix visible ! i)\<^sup>2) [0..<len] 0
      in (err / real_of_int (m_batch_size s2), s2))"

text \<open>The flip loop of \<open>pseudo_likelihood\<close>: in column \<open>j\<close> the entry of row \<open>indices[j]\<close> is
  replaced by one minus itself.\<close>

definition flip_indices :: "int list \<Rightarrow> nat \<Rightarrow> SGMatrix \<Rightarrow> SGMatrix" where
  "flip_indices indices bs visible =
     fold (\<lambda>j V. mat_set V (nat (indices ! j)) j (1 - mat_at V (nat (indices ! j)) j)) [0..<bs] visible"

text \<open>\<open>pseudo_likelihood(visible, buffer)\<close>.  The input matrix is flipped, evaluated and
  flipped back in place; the value returned here is the estimate.\<close>

definition pseudo_likelihood ::
  "'g prng_ops \<Rightarrow> SGMatrix \<Rightarrow> SGMatrix \<Rightarrow> 'g RBM \<Rightarrow> (error + real) \<times> 'g RBM" where
  "pseudo_likelihood ops visible buffer0 s0 =
     (if list_ex (\<lambda>k. m_visible_group_types s0 ! k \<noteq> RBMVUT_BINARY)
           [0..<nat (m_num_visible_groups s0)]
      then (Inl (Fatal ''Pseudo-likelihood is only supported for binary visible units'' []), s0)
      else
        (let s = set_batch_size ops (int (num_cols visible)) s0;
             buffer = (if num_rows buffer0 = 0 then new_matrix (m_num_hidden s) (m_batch_size s)
                       else buffer0);
             bs = nat (m_batch_size s);
             (indices, g) = fill_array (uniform_int ops 0 (m_num_visible s - 1)) bs (m_prng s);
             s1 = s\<lparr>m_prng := g\<rparr>;
             (f1, s2) = free_energy ops visible buffer s1;
             visible' = flip_indices indices bs visible;
             (f2, s3) = free_energy ops visible' buffer s2
         in (Inr (real_of_int (m_num_visible s3) * ln (1 / (1 + exp (f1 - f2)))), s3)))"

subsection \<open>Training\<close>

datatype Features = DenseFeatures_float64 SGMatrix | Other_features

text \<open>The local variables of \<open>train\<close> that live across mini-batches.\<close>

record train_locals =
  alpha :: real
  param_updates :: "real list"
  gradients :: "real list"
  counter :: int

text \<open>\<open>SGMatrix<float64_t> inputs_batch(inputs.matrix+j*inputs.num_rows, inputs.num_rows,
  gd_mini_batch_size, false)\<close>: the columns \<open>j, \<dots>, j + gd_mini_batch_size - 1\<close> of the inputs.\<close>

definition inputs_batch_at :: "SGMatrix \<Rightarrow> int \<Rightarrow> int \<Rightarrow> SGMatrix" where
  "inputs_batch_at inputs mini j =
     \<lparr>matrix = take (num_rows inputs * nat mini) (drop (nat j * num_rows inputs) (matrix inputs)),
      num_rows = num_rows inputs,
      num_cols = nat mini\<rparr>"

text \<open>The position of the mini-batch that starts at loop variable \<open>j0\<close>: a batch that would
  overrun the training set is moved back.\<close>

definition batch_start :: "SGMatrix \<Rightarrow> int \<Rightarrow> int \<Rightarrow> int" where
  "batch_start inputs mini j0 =
     (if j0 + mini > int (num_cols inputs) then int (num_cols inputs) - mini else j0)"

text \<open>The loop \<open>m_params[k] += gd_momentum*param_updates[k]\<close> over the first \<open>n\<close> entries.\<close>

definition momentum_step :: "real \<Rightarrow> real list \<Rightarrow> nat \<Rightarrow> real list \<Rightarrow> real list" where
  "momentum_step m updates n params =
     fold (\<lambda>k p. p[k := p ! k + m * updates ! k]) [0..<n] params"

text \<open>The loop that sets \<open>param_updates[k] = gd_momentum*param_updates[k] - alpha*gradients[k]\<close>
  and \<open>m_params[k] -= alpha*gradients[k]\<close>, on the pair of the two vectors.\<close>

definition gradient_step ::
  "real \<Rightarrow> real \<Rightarrow> real list \<Rightarrow> nat \<Rightarrow> real list \<times> real list \<Rightarrow> real list \<times> real list" where
  "gradient_step m a grads n up =
     fold (\<lambda>k (u, p). (u[k := m * u ! k - a * grads ! k], p[k := p ! k - a * grads ! k]))
       [0..<n] up"

text \<open>The monitoring block.  The \<open>io::info\<close> output of the monitored value is not modelled;
  an error raised by \<open>pseudo_likelihood\<close> leaves \<open>train\<close>.\<close>

definition monitor ::
  "'g prng_ops \<Rightarrow> SGMatrix \<Rightarrow> SGMatrix \<Rightarrow> int \<Rightarrow> 'g RBM \<Rightarrow> error option \<times> 'g RBM" where
  "monitor ops inputs_batch buffer cnt s =
     (if cnt mod monitoring_interval s = 0
      then (case monitoring_method s of
              RBMMM_RECONSTRUCTION_ERROR \<Rightarrow>
                (None, snd (reconstruction_error ops inputs_batch buffer s))
            | RBMMM_PSEUDO_LIKELIHOOD \<Rightarrow>
                (case pseudo_likelihood ops inputs_batch buffer s of
                   (Inl e, s') \<Rightarrow> (Some e, s')
                 | (Inr _, s') \<Rightarrow> (None, s')))
      else (None, s))"

text \<open>
  The body of the mini-batch loop of \<open>train\<close> for loop variable \<open>j\<close>.  It returns the error
  raised by the monitoring call (if any), the value of \<open>j\<close> after the body, the locals and
  the state.
\<close>

definition train_minibatch ::
  "'g prng_ops \<Rightarrow> SGMatrix \<Rightarrow> SGMatrix \<Rightarrow> int \<Rightarrow> train_locals \<times> 'g RBM \<Rightarrow>
   error option \<times> int \<times> train_locals \<times> 'g RBM" where
  "train_minibatch ops inputs buffer j0 ls =
     (let (l, s) = ls;
          alpha' = gd_learning_rate_decay s * alpha l;
          j = batch_start inputs (gd_mini_batch_size s) j0;
          inputs_batch = inputs_batch_at inputs (gd_mini_batch_size s) j;
          s1 = s\<lparr>m_params := momentum_step (gd_momentum s) (param_updates l)
                                (nat (m_num_params s)) (m_params s)\<rparr>;
          (grads, s2) = contrastive_divergence ops inputs_batch (gradients l) s1;
          (updates', params') =
            gradient_step (gd_momentum s2) alpha' grads (nat (m_num_params s2))
              (param_updates l, m_params s2);
          s3 = s2\<lparr>m_params := params'\<rparr>;
          (err, s4) = monitor ops inputs_batch buffer (counter l) s3
      in (err, j,
          \<lparr>alpha = alpha', param_updates = updates', gradients = grads, counter = counter l + 1\<rparr>,
          s4))"

text \<open>The mini-batch loop \<open>for (j=0; j<training_set_size; j+=gd_mini_batch_size)\<close>.  It does
  not end for every mini-batch size, so it is a partial function: \<open>None\<close> is a run that
  never leaves the loop.\<close>

partial_function (option) train_batches ::
  "'g prng_ops \<Rightarrow> SGMatrix \<Rightarrow> SGMatrix \<Rightarrow> int \<Rightarrow> train_locals \<times> 'g RBM \<Rightarrow>
   (error option \<times> train_locals \<times> 'g RBM) option" where
  "train_batches ops inputs buffer j ls =
     (if j < int (num_cols inputs)
      then (case train_minibatch ops inputs buffer j ls of
              (Some e, j', l', s') \<Rightarrow> Some (Some e, l', s')
            | (None, j', l', s') \<Rightarrow>
                train_batches ops inputs buffer (j' + gd_mini_batch_size s') (l', s'))
      else Some (None, ls))"

text \<open>The epoch loop.\<close>

fun train_epochs ::
  "'g prng_ops \<Rightarrow> SGMatrix \<Rightarrow> SGMatrix \<Rightarrow> nat \<Rightarrow> train_locals \<times> 'g RBM \<Rightarrow>
   (error option \<times> train_locals \<times> 'g RBM) option" where
  "train_epochs ops inputs buffer 0 ls = Some (None, ls)"
| "train_epochs ops inputs buffer (Suc n) ls =
     (case train_batches ops inputs buffer 0 ls of
        None \<Rightarrow> None
      | Some (Some e, ls') \<Rightarrow> Some (Some e, ls')
      | Some (None, ls') \<Rightarrow> train_epochs ops inputs buffer n ls')"

definition train :: "'g prng_ops \<Rightarrow> Features option \<Rightarrow> 'g RBM \<Rightarrow> (error option \<times> 'g RBM) option" where
  "train ops features s0 =
     (case features of
        None \<Rightarrow> Some (Some (Fatal ''Invalid (NULL) feature pointer'' []), s0)
      | Some Other_features \<Rightarrow>
          Some (Some (Fatal ''Input features must be of type DenseFeatures<float64_t>.'' []), s0)
      | Some (DenseFeatures_float64 inputs) \<Rightarrow>
          if int (num_rows inputs) \<noteq> m_num_visible s0
          then Some (Some (Fatal
                 ''Number of features ({}) must match the RBM's number of visible units ({})''
                 [int (num_rows inputs), m_num_visible s0]), s0)
          else
            (let training_set_size = int (num_cols inputs);
                 s1 = (if gd_mini_batch_size s0 = 0
                       then s0\<lparr>gd_mini_batch_size := training_set_size\<rparr> else s0);
                 s2 = set_batch_size ops (gd_mini_batch_size s1) s1;
                 s3 = s2\<lparr>visible_state :=
                         fold (\<lambda>i. fold (\<lambda>j R. mat_set R i j (mat_at inputs i j))
                                      [0..<nat (m_batch_size s2)])
                           [0..<nat (m_num_visible s2)] (visible_state s2)\<rparr>;
                 l = \<lparr>alpha = gd_learning_rate s3,
                      param_updates = replicate (nat (m_num_params s3)) 0,
                      gradients = replicate (nat (m_num_params s3)) 0,
                      counter = 0\<rparr>;
                 buffer = (case monitoring_method s3 of
                             RBMMM_RECONSTRUCTION_ERROR \<Rightarrow> new_matrix (m_num_visible s3) (m_batch_size s3)
                           | RBMMM_PSEUDO_LIKELIHOOD \<Rightarrow> new_matrix (m_num_hidden s3) (m_batch_size s3))
             in case train_epochs ops inputs buffer (nat (max_num_epochs s3)) (l, s3) of
                  None \<Rightarrow> None
                | Some (e, l', s') \<Rightarrow> Some (e, s')))"

text \<open>A deterministic engine that replays a script of draws; it is used to run the model
  on concrete inputs.\<close>

definition replay_ops :: "(real list \<times> int list) prng_ops" where
  "replay_ops =
     \<lparr>uniform_prob = (\<lambda>(us, ns). case us of [] \<Rightarrow> (0, ([], ns)) | u # us' \<Rightarrow> (u, (us', ns))),
      uniform_int = (\<lambda>a b (us, ns). case ns of [] \<Rightarrow> (a, (us, [])) | n # ns' \<Rightarrow> (n, (us, ns'))),
      normal_dist = (\<lambda>m sd (us, ns). case us of [] \<Rightarrow> (m, ([], ns)) | u # us' \<Rightarrow> (u, (us', ns)))\<rparr>"

subsection \<open>Notions used in the statements\<close>

text \<open>A matrix whose storage has exactly \<open>num_rows * num_cols\<close> entries.\<close>

definition mat_ok :: "SGMatrix \<Rightarrow> bool" where
  "mat_ok M \<longleftrightarrow> length (matrix M) = num_rows M * num_cols M"

text \<open>The engine after \<open>n\<close> uniform draws, and the value of the draw made then.\<close>

definition draw_state :: "'g prng_ops \<Rightarrow> 'g \<Rightarrow> nat \<Rightarrow> 'g" where
  "draw_state ops g n = ((\<lambda>g. snd (uniform_prob ops g)) ^^ n) g"

definition nth_draw :: "'g prng_ops \<Rightarrow> 'g \<Rightarrow> nat \<Rightarrow> real" where
  "nth_draw ops g n = fst (uniform_prob ops (draw_state ops g n))"

text \<open>The state in which \<open>train\<close> calls \<open>contrastive_divergence\<close>: every parameter has moved
  by the momentum times its velocity.\<close>

definition lookahead :: "train_locals \<Rightarrow> 'g RBM \<Rightarrow> 'g RBM" where
  "lookahead l s =
     s\<lparr>m_params := map2 (\<lambda>p u. p + gd_momentum s * u) (m_params s) (param_updates l)\<rparr>"

text \<open>Two states that differ at most in the batch state: the two buffers, the batch size
  and the random engine.\<close>

definition chain_frame :: "'g RBM \<Rightarrow> 'g RBM \<Rightarrow> bool" where
  "chain_frame s s' \<longleftrightarrow>
     s' = s\<lparr>hidden_state := hidden_state s', visible_state := visible_state s',
            m_prng := m_prng s', m_batch_size := m_batch_size s'\<rparr>"

text \<open>The value of \<open>free_energy\<close> in the words of the specification: minus the sum of
  \<open>visible_bias \<cdot> visible_sum\<close> and of \<open>log (1 + exp (hidden_bias + weights \<cdot> visible))\<close> over
  all hidden units and columns, divided by the batch size, plus
  \<open>0.5 \<cdot> \<Sum> visible\<^sup>2 / batch_size\<close> for every Gaussian group and nothing for the others.\<close>

definition free_energy_formula :: "'g RBM \<Rightarrow> SGMatrix \<Rightarrow> real" where
  "free_energy_formula s visible =
     (let batch_size = num_cols visible;
          nv = nat (m_num_visible s);
          nh = nat (m_num_hidden s);
          visible_sum = (\<lambda>k. \<Sum>j<batch_size. mat_at visible k j)
      in - ((\<Sum>k<nv. B_map s k * visible_sum k)
            + (\<Sum>i<nh. \<Sum>j<batch_size.
                 ln (1 + exp (C_map s i + (\<Sum>k<nv. W_map s i k * mat_at visible k j)))))
           / real batch_size
         + (\<Sum>k<nat (m_num_visible_groups s).
              if m_visible_group_types s ! k = RBMVUT_GAUSSIAN
              then 0.5 * (\<Sum>i<nat (m_visible_group_sizes s ! k). \<Sum>j<batch_size.
                            (mat_at visible (group_row (m_visible_state_offsets s ! k) i) j)\<^sup>2)
                   / real batch_size
              else 0))"

text \<open>The dimensions of a matrix and the size of its storage.\<close>

definition shape_of :: "SGMatrix \<Rightarrow> nat \<times> nat \<times> nat" where
  "shape_of M = (num_rows M, num_cols M, length (matrix M))"

text \<open>Two states that differ at most in the two buffers and the random engine.\<close>

definition gibbs_frame :: "'g RBM \<Rightarrow> 'g RBM \<Rightarrow> bool" where
  "gibbs_frame s s' \<longleftrightarrow>
     s' = s\<lparr>hidden_state := hidden_state s', visible_state := visible_state s', m_prng := m_prng s'\<rparr>"

text \<open>The visible buffer as \<open>set_batch_size\<close> leaves it: once a positive batch size is
  set, it holds \<open>m_num_visible \<times> m_batch_size\<close> entries.\<close>

definition visible_ok :: "'g RBM \<Rightarrow> bool" where
  "visible_ok s \<longleftrightarrow>
     (0 < m_batch_size s \<longrightarrow>
        mat_ok (visible_state s) \<and>
        num_rows (visible_state s) = nat (m_num_visible s) \<and>
        num_cols (visible_state s) = nat (m_batch_size s))"



subsection \<open>Registry proofs\<close>

lemma registry_inv_init: "registry_inv (init g)"
  by (simp add: registry_inv_def init_def)

lemma registry_inv_hidden: "registry_inv (s\<lparr>m_num_hidden := h\<rparr>) = registry_inv s"
  by (simp add: registry_inv_def)

lemma registry_inv_add:
  assumes "registry_inv s"
  shows "registry_inv (add_visible_group n t s)"
proof (cases "m_visible_state_offsets s")
  case Nil
  with assms show ?thesis
    by (auto simp: registry_inv_def add_visible_group_def)
next
  case (Cons a as)
  let ?offs = "m_visible_state_offsets s" and ?sz = "m_visible_group_sizes s"
  from assms have len: "length ?sz = length ?offs"
    by (simp add: registry_inv_def)
  from Cons have pos: "0 < length ?offs" by simp
  have last_off: "?offs ! (length ?offs - 1) = sum_list (take (length ?offs - 1) ?sz)"
    using assms pos by (simp add: registry_inv_def)
  have "take (length ?offs - 1) ?sz @ [?sz ! (length ?offs - 1)] = ?sz"
    using len pos by (metis Suc_pred' lessI take_Suc_conv_app_nth take_all order_refl)
  then have "sum_list (take (length ?offs - 1) ?sz) + ?sz ! (length ?offs - 1) = sum_list ?sz"
    by (metis sum_list.append sum_list.Cons sum_list.Nil add.right_neutral)
  with last_off have new_off:
    "?offs ! (length ?offs - 1) + ?sz ! (length ?offs - 1) = sum_list ?sz"
    by simp
  have "?offs \<noteq> []" using Cons by simp
  with assms len new_off show ?thesis
    by (auto simp: registry_inv_def add_visible_group_def Let_def nth_append less_Suc_eq)
qed

lemma registry_inv_add_groups:
  "registry_inv s \<Longrightarrow> registry_inv (add_visible_groups calls s)"
  unfolding add_visible_groups_def
  by (induction calls arbitrary: s) (auto simp: registry_inv_add)

lemma registry_inv_offset_step:
  assumes "registry_inv s" and "0 < k" and "k < length (m_visible_state_offsets s)"
  shows "m_visible_state_offsets s ! k =
         m_visible_state_offsets s ! (k - 1) + m_visible_group_sizes s ! (k - 1)"
proof -
  let ?offs = "m_visible_state_offsets s" and ?sz = "m_visible_group_sizes s"
  from assms have len: "length ?sz = length ?offs"
    by (simp add: registry_inv_def)
  have k1: "k - 1 < length ?sz" using assms(3) len by simp
  have "take k ?sz = take (k - 1) ?sz @ [?sz ! (k - 1)]"
    using take_Suc_conv_app_nth [OF k1] assms(2) by simp
  then have "sum_list (take k ?sz) = sum_list (take (k - 1) ?sz) + ?sz ! (k - 1)"
    by simp
  moreover have "?offs ! k = sum_list (take k ?sz)"
    using assms by (simp add: registry_inv_def)
  moreover have "?offs ! (k - 1) = sum_list (take (k - 1) ?sz)"
    using assms by (simp add: registry_inv_def)
  ultimately show ?thesis by simp
qed

text \<open>
  C6.  After any sequence of \<open>add_visible_group\<close> calls on a freshly constructed model
  (constructor \<open>RBM(num_hidden)\<close>; \<open>RBM()\<close> is the case \<open>num_hidden = 0\<close>), the sum of the
  registered group sizes equals \<open>m_num_visible\<close>, the offset of the first group is 0, and
  the offset of every later group \<open>k\<close> is the offset of group \<open>k - 1\<close> plus the size of
  group \<open>k - 1\<close>.
\<close>

theorem add_visible_group_offsets_and_sum:
  fixes g :: 'g and calls :: "(int \<times> ERBMVisibleUnitType) list" and num_hidden :: int
  defines "s \<equiv> add_visible_groups calls (RBM_hidden num_hidden g)"
  shows "sum_list (m_visible_group_sizes s) = m_num_visible s \<and>
         length (m_visible_state_offsets s) = length calls \<and>
         m_visible_group_sizes s = map fst calls \<and>
         (calls \<noteq> [] \<longrightarrow> m_visible_state_offsets s ! 0 = 0) \<and>
         (\<forall>k. 0 < k \<and> k < length calls \<longrightarrow>
            m_visible_state_offsets s ! k =
            m_visible_state_offsets s ! (k - 1) + m_visible_group_sizes s ! (k - 1))"
proof -
  have inv: "registry_inv s"
    unfolding s_def RBM_hidden_def
    by (rule registry_inv_add_groups) (simp add: registry_inv_hidden registry_inv_init)
  have shape: "m_visible_group_sizes (add_visible_groups calls s0) =
                 m_visible_group_sizes s0 @ map fst calls \<and>
               length (m_visible_state_offsets (add_visible_groups calls s0)) =
                 length (m_visible_state_offsets s0) + length calls" for s0 :: "'g RBM"
    unfolding add_visible_groups_def
    by (induction calls arbitrary: s0) (auto simp: add_visible_group_def Let_def)
  have sizes: "m_visible_group_sizes s = map fst calls"
    and len: "length (m_visible_state_offsets s) = length calls"
    using shape [of "RBM_hidden num_hidden g"]
    by (simp_all add: s_def RBM_hidden_def init_def)
  have first: "m_visible_state_offsets s ! 0 = 0" if "calls \<noteq> []"
    using inv that len by (simp add: registry_inv_def)
  have total: "sum_list (m_visible_group_sizes s) = m_num_visible s"
    using inv by (simp add: registry_inv_def)
  have step: "m_visible_state_offsets s ! k =
        m_visible_state_offsets s ! (k - 1) + m_visible_group_sizes s ! (k - 1)"
    if "0 < k \<and> k < length calls" for k
    using registry_inv_offset_step [OF inv, of k] that len by simp
  show ?thesis
    using total sizes len first step by blast
qed

theorem add_visible_group_offsets_and_sum_witness:
  "(let s = add_visible_groups [(3, RBMVUT_BINARY), (2, RBMVUT_SOFTMAX), (4, RBMVUT_GAUSSIAN)]
              (RBM_hidden 5 ())
    in sum_list (m_visible_group_sizes s) = m_num_visible s \<and>
       m_num_visible s = 9 \<and>
       m_visible_state_offsets s ! 0 = 0 \<and>
       (0 < (2::nat) \<and> (2::nat) < length [(3::int, RBMVUT_BINARY), (2, RBMVUT_SOFTMAX), (4, RBMVUT_GAUSSIAN)]) \<and>
       m_visible_state_offsets s ! 2 =
         m_visible_state_offsets s ! (2 - 1) + m_visible_group_sizes s ! (2 - 1) \<and>
       m_visible_state_offsets s = [0, 3, 5])"
  using add_visible_group_offsets_and_sum
    [of "[(3, RBMVUT_BINARY), (2, RBMVUT_SOFTMAX), (4, RBMVUT_GAUSSIAN)]" 5 "()"]
  by (simp add: add_visible_groups_def add_visible_group_def RBM_hidden_def init_def Let_def)

lemmas build_simps = RBM_hidden_visible_def RBM_hidden_def init_def add_visible_group_def Let_def
  empty_matrix_def new_matrix_def

subsection \<open>Loops, flat indices and matrix entries\<close>

lemma fold_upt_Suc: "fold f [0..<Suc n] s = f n (fold f [0..<n] s)"
  by simp

lemma fold_upt_inv:
  assumes "I 0 s" and "\<And>i s. i < n \<Longrightarrow> I i s \<Longrightarrow> I (Suc i) (f i s)"
  shows "I n (fold f [0..<n] s)"
proof -
  have "m \<le> n \<Longrightarrow> I m (fold f [0..<m] s)" for m
  proof (induction m)
    case 0
    then show ?case using assms(1) by simp
  next
    case (Suc m)
    then show ?case using assms(2) [of m "fold f [0..<m] s"] by simp
  qed
  then show ?thesis by simp
qed

lemma flat_index_eq:
  fixes i r :: nat
  assumes "i < R" and "r < R"
  shows "j * R + i = c * R + r \<longleftrightarrow> j = c \<and> i = r"
proof
  assume eq: "j * R + i = c * R + r"
  have "(j * R + i) div R = j" "(c * R + r) div R = c"
    using assms by simp_all
  with eq have "j = c" by metis
  with eq show "j = c \<and> i = r" by simp
qed simp

lemma flat_index_less:
  fixes i :: nat
  assumes "i < R" and "j < C"
  shows "j * R + i < R * C"
proof -
  have "j * R + i < j * R + R" using assms by simp
  also have "\<dots> = Suc j * R" by simp
  also have "\<dots> \<le> C * R" using assms by (intro mult_le_mono1) simp
  finally show ?thesis by (simp add: mult.commute)
qed

lemma mat_set_shape [simp]:
  "num_rows (mat_set M i j v) = num_rows M"
  "num_cols (mat_set M i j v) = num_cols M"
  "length (matrix (mat_set M i j v)) = length (matrix M)"
  by (simp_all add: mat_set_def)

lemma mat_ok_mat_set [simp]: "mat_ok (mat_set M i j v) = mat_ok M"
  by (simp add: mat_ok_def)

lemma mat_at_mat_set:
  assumes "mat_ok M" and "i < num_rows M" and "j < num_cols M" and "r < num_rows M"
  shows "mat_at (mat_set M i j v) r c = (if r = i \<and> c = j then v else mat_at M r c)"
proof -
  have "j * num_rows M + i < length (matrix M)"
    using assms flat_index_less [of i "num_rows M" j "num_cols M"] by (simp add: mat_ok_def)
  then show ?thesis
    using assms flat_index_eq [of i "num_rows M" r j c]
    by (auto simp: mat_at_def mat_set_def nth_list_update)
qed

lemma draw_state_0 [simp]: "draw_state ops g 0 = g"
  by (simp add: draw_state_def)

lemma draw_state_Suc: "draw_state ops g (Suc n) = snd (uniform_prob ops (draw_state ops g n))"
  by (simp add: draw_state_def)

lemma draw_state_add: "draw_state ops (draw_state ops g a) b = draw_state ops g (a + b)"
proof -
  have "draw_state ops (draw_state ops g a) b = draw_state ops g (b + a)"
    by (simp add: draw_state_def funpow_add)
  then show ?thesis by (simp add: add.commute)
qed

lemma nth_draw_shift: "nth_draw ops (draw_state ops g a) b = nth_draw ops g (a + b)"
  by (simp add: nth_draw_def draw_state_add)

subsection \<open>The chain reset\<close>

lemma reset_row:
  fixes g :: 'g
  assumes "mat_ok M" and "i < num_rows M" and "n \<le> num_cols M"
  shows "(let (M', g') = fold (chain_body ops i) [0..<n] (M, g) in
          mat_ok M' \<and> num_rows M' = num_rows M \<and> num_cols M' = num_cols M \<and>
          g' = draw_state ops g n \<and>
          (\<forall>r c. r < num_rows M \<longrightarrow>
             mat_at M' r c = (if r = i \<and> c < n then (if nth_draw ops g c > 0.5 then 1 else 0)
                              else mat_at M r c)))"
proof -
  let ?I = "\<lambda>m (M', g'). mat_ok M' \<and> num_rows M' = num_rows M \<and> num_cols M' = num_cols M \<and>
          g' = draw_state ops g m \<and>
          (\<forall>r c. r < num_rows M \<longrightarrow>
             mat_at M' r c = (if r = i \<and> c < m then (if nth_draw ops g c > 0.5 then 1 else 0)
                              else mat_at M r c))"
  have "?I n (fold (chain_body ops i) [0..<n] (M, g))"
  proof (rule fold_upt_inv)
    show "?I 0 (M, g)" using assms by simp
  next
    fix m and s :: "SGMatrix \<times> 'g"
    assume m: "m < n" and inv: "?I m s"
    obtain M' g' where s: "s = (M', g')" by (cases s)
    from inv s have ok: "mat_ok M'" and rows: "num_rows M' = num_rows M"
      and cols: "num_cols M' = num_cols M" and g': "g' = draw_state ops g m"
      and ent: "\<And>r c. r < num_rows M \<Longrightarrow>
             mat_at M' r c = (if r = i \<and> c < m then (if nth_draw ops g c > 0.5 then 1 else 0)
                              else mat_at M r c)"
      by auto
    have mc: "m < num_cols M'" using m assms(3) cols by simp
    have ir: "i < num_rows M'" using assms(2) rows by simp
    show "?I (Suc m) (chain_body ops i m s)"
      using ok rows cols g' ent mc ir
      by (auto simp: s chain_body_def split_beta Let_def mat_at_mat_set draw_state_Suc
            nth_draw_def less_Suc_eq)
  qed
  then show ?thesis by (simp add: split_beta)
qed


lemma reset_rows:
  fixes g :: 'g
  assumes "mat_ok M" and "n \<le> num_rows M"
  shows "(let (M', g') = fold (\<lambda>i. fold (chain_body ops i) [0..<num_cols M]) [0..<n] (M, g) in
          mat_ok M' \<and> num_rows M' = num_rows M \<and> num_cols M' = num_cols M \<and>
          g' = draw_state ops g (n * num_cols M) \<and>
          (\<forall>r c. r < num_rows M \<and> c < num_cols M \<longrightarrow>
             mat_at M' r c = (if r < n then (if nth_draw ops g (r * num_cols M + c) > 0.5 then 1 else 0)
                              else mat_at M r c)))"
proof -
  let ?C = "num_cols M"
  let ?I = "\<lambda>m (M', g'). mat_ok M' \<and> num_rows M' = num_rows M \<and> num_cols M' = ?C \<and>
          g' = draw_state ops g (m * ?C) \<and>
          (\<forall>r c. r < num_rows M \<and> c < ?C \<longrightarrow>
             mat_at M' r c = (if r < m then (if nth_draw ops g (r * ?C + c) > 0.5 then 1 else 0)
                              else mat_at M r c))"
  have "?I n (fold (\<lambda>i. fold (chain_body ops i) [0..<?C]) [0..<n] (M, g))"
  proof (rule fold_upt_inv)
    show "?I 0 (M, g)" using assms by simp
  next
    fix m and s :: "SGMatrix \<times> 'g"
    assume m: "m < n" and inv: "?I m s"
    obtain M1 g1 where s: "s = (M1, g1)" by (cases s)
    from inv s have ok: "mat_ok M1" and rows: "num_rows M1 = num_rows M"
      and cols: "num_cols M1 = ?C" and g1: "g1 = draw_state ops g (m * ?C)"
      and ent: "\<And>r c. r < num_rows M \<Longrightarrow> c < ?C \<Longrightarrow>
             mat_at M1 r c = (if r < m then (if nth_draw ops g (r * ?C + c) > 0.5 then 1 else 0)
                              else mat_at M r c)"
      by auto
    have mr: "m < num_rows M1" using m assms(2) rows by simp
    obtain M2 g2 where step: "fold (chain_body ops m) [0..<?C] (M1, g1) = (M2, g2)"
      by (cases "fold (chain_body ops m) [0..<?C] (M1, g1)")
    from reset_row [OF ok mr, of ?C ops g1] cols step
    have ok2: "mat_ok M2" and rows2: "num_rows M2 = num_rows M1" and cols2: "num_cols M2 = num_cols M1"
      and g2: "g2 = draw_state ops g1 ?C"
      and ent2: "\<And>r c. r < num_rows M1 \<Longrightarrow>
             mat_at M2 r c = (if r = m \<and> c < ?C then (if nth_draw ops g1 c > 0.5 then 1 else 0)
                              else mat_at M1 r c)"
      by auto
    have g2': "g2 = draw_state ops g (Suc m * ?C)"
      using g2 g1 by (simp add: draw_state_add add.commute)
    have "mat_at M2 r c = (if r < Suc m then (if nth_draw ops g (r * ?C + c) > 0.5 then 1 else 0)
                              else mat_at M r c)" if "r < num_rows M" "c < ?C" for r c
      using ent2 [of r c] ent [of r c] that rows g1
      by (auto simp: nth_draw_shift less_Suc_eq)
    with ok2 rows2 cols2 rows cols g2' show "?I (Suc m) (fold (chain_body ops m) [0..<?C] s)"
      by (simp add: s step)
  qed
  then show ?thesis by (simp add: split_beta)
qed

lemma new_matrix_shape [simp]:
  "num_rows (new_matrix r c) = nat r"
  "num_cols (new_matrix r c) = nat c"
  "mat_ok (new_matrix r c)"
  by (simp_all add: new_matrix_def mat_ok_def)

text \<open>What a call of set_batch_size with a new size leaves behind.\<close>

lemma set_batch_size_changed:
  fixes s :: "'g RBM" and ops :: "'g prng_ops" and b :: int
  assumes "m_batch_size s \<noteq> b"
  defines "s' \<equiv> set_batch_size ops b s"
  shows "m_batch_size s' = b"
    and "hidden_state s' = new_matrix (m_num_hidden s) b"
    and "mat_ok (visible_state s')"
    and "num_rows (visible_state s') = nat (m_num_visible s)"
    and "num_cols (visible_state s') = nat b"
    and "m_prng s' = draw_state ops (m_prng s) (nat (m_num_visible s) * nat b)"
    and "\<And>i j. i < nat (m_num_visible s) \<Longrightarrow> j < nat b \<Longrightarrow>
           mat_at (visible_state s') i j =
           (if nth_draw ops (m_prng s) (i * nat b + j) > 0.5 then 1 else 0)"
    and "s'\<lparr>hidden_state := hidden_state s, visible_state := visible_state s,
             m_prng := m_prng s, m_batch_size := m_batch_size s\<rparr> = s"
proof -
  let ?M = "new_matrix (m_num_visible s) b"
  obtain M' g' where run:
    "fold (\<lambda>i. fold (chain_body ops i) [0..<num_cols ?M]) [0..<nat (m_num_visible s)] (?M, m_prng s) = (M', g')"
    by (cases "fold (\<lambda>i. fold (chain_body ops i) [0..<num_cols ?M]) [0..<nat (m_num_visible s)] (?M, m_prng s)")
  have s': "s' = s\<lparr>m_batch_size := b, hidden_state := new_matrix (m_num_hidden s) b,
                   visible_state := M', m_prng := g'\<rparr>"
    using assms(1) run by (simp add: s'_def set_batch_size_def reset_chain_def)
  from reset_rows [of ?M "nat (m_num_visible s)" ops "m_prng s"] run
  have facts: "mat_ok M'" "num_rows M' = nat (m_num_visible s)" "num_cols M' = nat b"
      "g' = draw_state ops (m_prng s) (nat (m_num_visible s) * nat b)"
      "\<And>r c. r < nat (m_num_visible s) \<Longrightarrow> c < nat b \<Longrightarrow>
         mat_at M' r c = (if nth_draw ops (m_prng s) (r * nat b + c) > 0.5 then 1 else 0)"
    by auto
  show "m_batch_size s' = b" "hidden_state s' = new_matrix (m_num_hidden s) b"
    "mat_ok (visible_state s')" "num_rows (visible_state s') = nat (m_num_visible s)"
    "num_cols (visible_state s') = nat b"
    "m_prng s' = draw_state ops (m_prng s) (nat (m_num_visible s) * nat b)"
    using facts by (simp_all add: s')
  show "\<And>i j. i < nat (m_num_visible s) \<Longrightarrow> j < nat b \<Longrightarrow>
           mat_at (visible_state s') i j =
           (if nth_draw ops (m_prng s) (i * nat b + j) > 0.5 then 1 else 0)"
    using facts(5) by (simp add: s')
  show "s'\<lparr>hidden_state := hidden_state s, visible_state := visible_state s,
             m_prng := m_prng s, m_batch_size := m_batch_size s\<rparr> = s"
    by (simp add: s')
qed

lemma set_batch_size_same: "m_batch_size s = b \<Longrightarrow> set_batch_size ops b s = s"
  by (simp add: set_batch_size_def)


text \<open>
  C7.  \<open>set_batch_size\<close> with the current batch size returns the state as it is: buffers,
  chain state and random engine are untouched.  With a different value the hidden buffer
  is a fresh \<open>m_num_hidden \<times> batch_size\<close> matrix, the visible buffer has
  \<open>m_num_visible \<times> batch_size\<close> entries, and every one of them is the outcome of a draw of
  its own: entry \<open>(i, j)\<close> is 1 if the draw number \<open>i * batch_size + j\<close> made from the
  engine exceeds 0.5 and 0 otherwise.
\<close>

theorem set_batch_size_noop_or_rerandomize:
  fixes s :: "'g RBM"
  shows "(m_batch_size s = b \<longrightarrow> set_batch_size ops b s = s) \<and>
         (m_batch_size s \<noteq> b \<longrightarrow>
            m_batch_size (set_batch_size ops b s) = b \<and>
            hidden_state (set_batch_size ops b s) = new_matrix (m_num_hidden s) b \<and>
            num_rows (visible_state (set_batch_size ops b s)) = nat (m_num_visible s) \<and>
            num_cols (visible_state (set_batch_size ops b s)) = nat b \<and>
            length (matrix (visible_state (set_batch_size ops b s))) = nat (m_num_visible s) * nat b \<and>
            (\<forall>i < nat (m_num_visible s). \<forall>j < nat b.
               mat_at (visible_state (set_batch_size ops b s)) i j =
               (if nth_draw ops (m_prng s) (i * nat b + j) > 0.5 then 1 else 0)))"
proof (intro conjI impI)
  assume "m_batch_size s = b"
  then show "set_batch_size ops b s = s" by (rule set_batch_size_same)
next
  assume ne: "m_batch_size s \<noteq> b"
  note facts = set_batch_size_changed [OF ne, where ops = ops]
  show "m_batch_size (set_batch_size ops b s) = b" by (rule facts(1))
  show "hidden_state (set_batch_size ops b s) = new_matrix (m_num_hidden s) b" by (rule facts(2))
  show "num_rows (visible_state (set_batch_size ops b s)) = nat (m_num_visible s)" by (rule facts(4))
  show "num_cols (visible_state (set_batch_size ops b s)) = nat b" by (rule facts(5))
  show "length (matrix (visible_state (set_batch_size ops b s))) = nat (m_num_visible s) * nat b"
    using facts(3,4,5) by (simp add: mat_ok_def)
  show "\<forall>i < nat (m_num_visible s). \<forall>j < nat b.
               mat_at (visible_state (set_batch_size ops b s)) i j =
               (if nth_draw ops (m_prng s) (i * nat b + j) > 0.5 then 1 else 0)"
    using facts(7) by blast
qed

theorem set_batch_size_noop_or_rerandomize_witness:
  "(let s = RBM_hidden_visible 1 2 RBMVUT_BINARY ([0.7, 0.2], []);
        s' = set_batch_size replay_ops 1 s
    in m_batch_size s \<noteq> 1 \<and> m_batch_size s' = 1 \<and>
       hidden_state s' = new_matrix 1 1 \<and>
       num_rows (visible_state s') = 2 \<and> num_cols (visible_state s') = 1 \<and>
       (1::nat) < nat 2 \<and> (0::nat) < nat 1 \<and>
       mat_at (visible_state s') 1 0 =
         (if nth_draw replay_ops ([0.7, 0.2], []) (1 * nat 1 + 0) > 0.5 then 1 else 0) \<and>
       matrix (visible_state s') = [1, 0] \<and>
       set_batch_size replay_ops 1 s' = s')"
  using set_batch_size_noop_or_rerandomize
          [of "RBM_hidden_visible 1 2 RBMVUT_BINARY ([0.7, 0.2], [])" 1 replay_ops]
        set_batch_size_noop_or_rerandomize
          [of "set_batch_size replay_ops 1 (RBM_hidden_visible 1 2 RBMVUT_BINARY ([0.7, 0.2], []))"
              1 replay_ops]
  by (simp add: build_simps set_batch_size_def reset_chain_def chain_body_def replay_ops_def
        mat_set_def mat_at_def nth_draw_def draw_state_def eval_nat_numeral)

subsection \<open>Writing a row, a column and a block\<close>

lemma shape_of_eqD:
  assumes "shape_of M' = shape_of M"
  shows "num_rows M' = num_rows M" "num_cols M' = num_cols M" "length (matrix M') = length (matrix M)"
    "mat_ok M' = mat_ok M"
  using assms by (simp_all add: shape_of_def mat_ok_def)

lemma shape_mat_set [simp]: "shape_of (mat_set M i j v) = shape_of M"
  by (simp add: shape_of_def)

lemma shape_matrix_update [simp]:
  "length xs = length (matrix M) \<Longrightarrow> shape_of (M\<lparr>matrix := xs\<rparr>) = shape_of M"
  by (simp add: shape_of_def)

lemma shape_fold:
  assumes "\<And>i M. shape_of (f i M) = shape_of M"
  shows "shape_of (fold f xs M) = shape_of M"
  by (induction xs arbitrary: M) (simp_all add: assms)

lemma shape_fold_pair:
  assumes "\<And>i M g. shape_of (fst (f i (M, g))) = shape_of M"
  shows "shape_of (fst (fold f xs (M, g))) = shape_of M"
proof (induction xs arbitrary: M g)
  case Nil
  show ?case by simp
next
  case (Cons x xs)
  obtain M1 g1 where 1: "f x (M, g) = (M1, g1)" by (cases "f x (M, g)")
  have "shape_of M1 = shape_of M" using assms [of x M g] 1 by simp
  then show ?case using Cons [of M1 g1] 1 by simp
qed

lemma row_update:
  assumes ok: "mat_ok M" and i: "i < num_rows M" and m: "m \<le> num_cols M" and r: "r < num_rows M"
  shows "mat_at (fold (\<lambda>j R. mat_set R i j (f j (mat_at R i j))) [0..<m] M) r c =
         (if r = i \<and> c < m then f c (mat_at M r c) else mat_at M r c)"
proof -
  let ?I = "\<lambda>m' R. shape_of R = shape_of M \<and>
              (\<forall>r c. r < num_rows M \<longrightarrow>
                 mat_at R r c = (if r = i \<and> c < m' then f c (mat_at M r c) else mat_at M r c))"
  have "?I m (fold (\<lambda>j R. mat_set R i j (f j (mat_at R i j))) [0..<m] M)"
  proof (rule fold_upt_inv [where I = ?I])
    show "?I 0 M" by simp
  next
    fix m' R assume m': "m' < m" and inv: "?I m' R"
    from inv have sh: "shape_of R = shape_of M" by simp
    note shD = shape_of_eqD [OF sh]
    have okR: "mat_ok R" using ok shD(4) by simp
    have iR: "i < num_rows R" using i shD(1) by simp
    have mR: "m' < num_cols R" using m' m shD(2) by simp
    show "?I (Suc m') (mat_set R i m' (f m' (mat_at R i m')))"
    proof (intro conjI allI impI)
      show "shape_of (mat_set R i m' (f m' (mat_at R i m'))) = shape_of M" using sh by simp
    next
      fix r c assume r: "r < num_rows M"
      then have rR: "r < num_rows R" using shD(1) by simp
      show "mat_at (mat_set R i m' (f m' (mat_at R i m'))) r c =
            (if r = i \<and> c < Suc m' then f c (mat_at M r c) else mat_at M r c)"
        using inv r i by (auto simp: mat_at_mat_set [OF okR iR mR rR] less_Suc_eq)
    qed
  qed
  then show ?thesis using r by simp
qed


lemma block_update:
  assumes ok: "mat_ok M" and n: "off + n \<le> num_rows M" and m: "m \<le> num_cols M" and r: "r < num_rows M"
  shows "mat_at (fold (\<lambda>i. fold (\<lambda>j R. mat_set R (off + i) j (f i j (mat_at R (off + i) j))) [0..<m])
                  [0..<n] M) r c =
         (if off \<le> r \<and> r < off + n \<and> c < m then f (r - off) c (mat_at M r c) else mat_at M r c)"
proof -
  let ?row = "\<lambda>i. fold (\<lambda>j R. mat_set R (off + i) j (f i j (mat_at R (off + i) j))) [0..<m]"
  let ?I = "\<lambda>n' R. shape_of R = shape_of M \<and>
              (\<forall>r c. r < num_rows M \<longrightarrow>
                 mat_at R r c = (if off \<le> r \<and> r < off + n' \<and> c < m
                                 then f (r - off) c (mat_at M r c) else mat_at M r c))"
  have "?I n (fold ?row [0..<n] M)"
  proof (rule fold_upt_inv [where I = ?I])
    show "?I 0 M" by simp
  next
    fix n' R assume n': "n' < n" and inv: "?I n' R"
    from inv have sh: "shape_of R = shape_of M" by simp
    note shD = shape_of_eqD [OF sh]
    have okR: "mat_ok R" using ok shD(4) by simp
    have iR: "off + n' < num_rows R" using n n' shD(1) by simp
    have mR: "m \<le> num_cols R" using m shD(2) by simp
    show "?I (Suc n') (?row n' R)"
    proof (intro conjI allI impI)
      show "shape_of (?row n' R) = shape_of M"
        using sh by (simp add: shape_fold)
    next
      fix r c assume r: "r < num_rows M"
      then have rR: "r < num_rows R" using shD(1) by simp
      have "mat_at (?row n' R) r c =
            (if r = off + n' \<and> c < m then f n' c (mat_at R r c) else mat_at R r c)"
        by (rule row_update [OF okR iR mR rR, where f = "f n'"])
      then show "mat_at (?row n' R) r c =
            (if off \<le> r \<and> r < off + Suc n' \<and> c < m then f (r - off) c (mat_at M r c) else mat_at M r c)"
        using inv r by (auto simp: less_Suc_eq)
    qed
  qed
  then show ?thesis using r by simp
qed

lemma mat_eqI:
  fixes A B :: SGMatrix
  assumes "mat_ok A" and "mat_ok B"
    and "num_rows A = num_rows B" and "num_cols A = num_cols B"
    and ent: "\<And>i j. i < num_rows B \<Longrightarrow> j < num_cols B \<Longrightarrow> mat_at A i j = mat_at B i j"
  shows "A = B"
proof -
  have len: "length (matrix A) = length (matrix B)"
    using assms(1-4) by (simp add: mat_ok_def)
  have "matrix A = matrix B"
  proof (rule nth_equalityI [OF len])
    fix t assume t: "t < length (matrix A)"
    then have t': "t < num_rows B * num_cols B" using len assms(2) by (simp add: mat_ok_def)
    then have rpos: "0 < num_rows B" by (cases "num_rows B") simp_all
    have i: "t mod num_rows B < num_rows B" using rpos by simp
    have j: "t div num_rows B < num_cols B"
      using t' by (simp add: less_mult_imp_div_less mult.commute)
    have "mat_at A (t mod num_rows B) (t div num_rows B) = mat_at B (t mod num_rows B) (t div num_rows B)"
      by (rule ent [OF i j])
    then show "matrix A ! t = matrix B ! t"
      using assms(3) by (simp add: mat_at_def)
  qed
  then show ?thesis using assms(3,4) by simp
qed

lemma group_row_nonneg: "0 \<le> offset \<Longrightarrow> group_row offset i = nat offset + i"
  by (simp add: group_row_def nat_add_distrib)

subsection \<open>The scalar queries and the batch size\<close>

lemma set_batch_size_batch [simp]: "m_batch_size (set_batch_size ops b s) = b"
  using set_batch_size_changed(1) [of s b ops] set_batch_size_same [of s b ops]
  by (cases "m_batch_size s = b") simp_all

lemma set_batch_size_idem [simp]: "set_batch_size ops b (set_batch_size ops b s) = set_batch_size ops b s"
  by (rule set_batch_size_same) simp

lemma flip_indices_cols [simp]: "num_cols (flip_indices indices bs visible) = num_cols visible"
  unfolding flip_indices_def
  by (rule fold_upt_inv [where I = "\<lambda>_ M. num_cols M = num_cols visible"]) simp_all

lemma free_energy_state: "snd (free_energy ops visible buffer s) = set_batch_size ops (int (num_cols visible)) s"
  by (simp add: free_energy_def Let_def)

lemma mean_hidden_shape [simp]:
  "num_rows (mean_hidden s visible result) = num_rows result"
  "num_cols (mean_hidden s visible result) = num_cols result"
  by (simp_all add: mean_hidden_def Let_def)

lemma sample_hidden_shape [simp]:
  "num_rows (fst (sample_hidden ops mean result g)) = num_rows result"
  "num_cols (fst (sample_hidden ops mean result g)) = num_cols result"
  by (simp_all add: sample_hidden_def Let_def split_beta)

lemma reconstruction_error_state:
  fixes s :: "'g RBM" and ops :: "'g prng_ops" and visible buffer :: SGMatrix
  defines "s1 \<equiv> set_batch_size ops (int (num_cols visible)) s"
  defines "s' \<equiv> snd (reconstruction_error ops visible buffer s)"
  shows "s'\<lparr>hidden_state := hidden_state s1, m_prng := m_prng s1\<rparr> = s1"
    and "num_rows (hidden_state s') = num_rows (hidden_state s1)"
    and "num_cols (hidden_state s') = num_cols (hidden_state s1)"
  by (simp_all add: s'_def s1_def reconstruction_error_def Let_def split_beta)

lemma pseudo_likelihood_rejects:
  assumes "list_ex (\<lambda>k. m_visible_group_types s ! k \<noteq> RBMVUT_BINARY) [0..<nat (m_num_visible_groups s)]"
  shows "pseudo_likelihood ops visible buffer s =
         (Inl (Fatal ''Pseudo-likelihood is only supported for binary visible units'' []), s)"
  using assms by (simp add: pseudo_likelihood_def)

lemma pseudo_likelihood_state:
  fixes s :: "'g RBM" and ops :: "'g prng_ops" and visible buffer :: SGMatrix
  assumes "\<not> list_ex (\<lambda>k. m_visible_group_types s ! k \<noteq> RBMVUT_BINARY) [0..<nat (m_num_visible_groups s)]"
  defines "s1 \<equiv> set_batch_size ops (int (num_cols visible)) s"
  defines "r \<equiv> pseudo_likelihood ops visible buffer s"
  shows "(snd r)\<lparr>m_prng := m_prng s1\<rparr> = s1" and "\<exists>x. fst r = Inr x"
proof -
  obtain indices g where fill:
    "fill_array (uniform_int ops 0 (m_num_visible s1 - 1)) (nat (m_batch_size s1)) (m_prng s1) = (indices, g)"
    by (cases "fill_array (uniform_int ops 0 (m_num_visible s1 - 1)) (nat (m_batch_size s1)) (m_prng s1)")
  have b: "m_batch_size s1 = int (num_cols visible)" by (simp add: s1_def)
  have same: "set_batch_size ops (int (num_cols visible)) (s1\<lparr>m_prng := g\<rparr>) = s1\<lparr>m_prng := g\<rparr>"
    by (rule set_batch_size_same) (simp add: b)
  have "snd r = s1\<lparr>m_prng := g\<rparr>"
    using assms(1) fill same
    by (simp add: r_def pseudo_likelihood_def Let_def split_beta free_energy_state s1_def [symmetric])
  then show "(snd r)\<lparr>m_prng := m_prng s1\<rparr> = s1" by simp
  show "\<exists>x. fst r = Inr x"
    using assms(1) by (simp add: r_def pseudo_likelihood_def Let_def split_beta)
qed


lemma all_binary_iff:
  "(\<forall>k < nat (m_num_visible_groups s). m_visible_group_types s ! k = RBMVUT_BINARY) \<longleftrightarrow>
   \<not> list_ex (\<lambda>k. m_visible_group_types s ! k \<noteq> RBMVUT_BINARY) [0..<nat (m_num_visible_groups s)]"
  by (auto simp: list_ex_iff)

text \<open>
  C10, as stated: each of \<open>free_energy\<close>, \<open>reconstruction_error\<close> and \<open>pseudo_likelihood\<close>
  resets the chain whenever the column count of the input differs from the batch size.
  \<open>pseudo_likelihood\<close> checks the group types first: on a model with a Gaussian group and
  batch size 0, a call with a one-column input fails and returns the state as it was.
\<close>

theorem pseudo_likelihood_keeps_chain_on_non_binary:
  "(let s = RBM_hidden_visible 1 1 RBMVUT_GAUSSIAN ([0.7], []);
        v = \<lparr>matrix = [1], num_rows = 1, num_cols = 1\<rparr>
    in int (num_cols v) \<noteq> m_batch_size s \<and>
       snd (pseudo_likelihood replay_ops v empty_matrix s) = s \<and>
       visible_state (snd (pseudo_likelihood replay_ops v empty_matrix s)) = empty_matrix)"
  by (simp add: build_simps pseudo_likelihood_def)

text \<open>
  C10, amended.  \<open>free_energy\<close> leaves exactly the state \<open>set_batch_size(visible.num_cols)\<close>
  produces; \<open>reconstruction_error\<close> leaves that state with a recomputed hidden buffer of the
  same shape and an advanced engine; \<open>pseudo_likelihood\<close> does so (with the buffers of that
  state) when every group is Binary, and otherwise fails with its message and leaves the
  state untouched.  When the column count differs from the batch size, that state has a
  fresh hidden buffer and a visible buffer whose every entry is the outcome of a draw of
  its own.
\<close>

theorem queries_set_batch_size:
  fixes s :: "'g RBM" and ops :: "'g prng_ops" and visible buffer :: SGMatrix
  defines "b \<equiv> int (num_cols visible)"
  defines "s1 \<equiv> set_batch_size ops b s"
  shows "snd (free_energy ops visible buffer s) = s1 \<and>
         visible_state (snd (reconstruction_error ops visible buffer s)) = visible_state s1 \<and>
         m_batch_size (snd (reconstruction_error ops visible buffer s)) = b \<and>
         num_rows (hidden_state (snd (reconstruction_error ops visible buffer s))) =
           num_rows (hidden_state s1) \<and>
         num_cols (hidden_state (snd (reconstruction_error ops visible buffer s))) =
           num_cols (hidden_state s1) \<and>
         ((\<forall>k < nat (m_num_visible_groups s). m_visible_group_types s ! k = RBMVUT_BINARY) \<longrightarrow>
            visible_state (snd (pseudo_likelihood ops visible buffer s)) = visible_state s1 \<and>
            hidden_state (snd (pseudo_likelihood ops visible buffer s)) = hidden_state s1 \<and>
            m_batch_size (snd (pseudo_likelihood ops visible buffer s)) = b) \<and>
         (\<not> (\<forall>k < nat (m_num_visible_groups s). m_visible_group_types s ! k = RBMVUT_BINARY) \<longrightarrow>
            pseudo_likelihood ops visible buffer s =
            (Inl (Fatal ''Pseudo-likelihood is only supported for binary visible units'' []), s)) \<and>
         (m_batch_size s \<noteq> b \<longrightarrow>
            hidden_state s1 = new_matrix (m_num_hidden s) b \<and>
            num_rows (visible_state s1) = nat (m_num_visible s) \<and>
            num_cols (visible_state s1) = nat b \<and>
            (\<forall>i < nat (m_num_visible s). \<forall>j < nat b.
               mat_at (visible_state s1) i j =
               (if nth_draw ops (m_prng s) (i * nat b + j) > 0.5 then 1 else 0)))"
proof -
  have fe: "snd (free_energy ops visible buffer s) = s1"
    by (simp add: free_energy_state s1_def b_def)
  note re = reconstruction_error_state [where ops = ops and visible = visible and buffer = buffer and s = s,
      folded b_def, folded s1_def]
  have re1: "visible_state (snd (reconstruction_error ops visible buffer s)) = visible_state s1"
    and re2: "m_batch_size (snd (reconstruction_error ops visible buffer s)) = b"
    using arg_cong [OF re(1), of visible_state] arg_cong [OF re(1), of m_batch_size]
    by (simp_all add: s1_def)
  have pl: "visible_state (snd (pseudo_likelihood ops visible buffer s)) = visible_state s1 \<and>
            hidden_state (snd (pseudo_likelihood ops visible buffer s)) = hidden_state s1 \<and>
            m_batch_size (snd (pseudo_likelihood ops visible buffer s)) = b"
    if "\<forall>k < nat (m_num_visible_groups s). m_visible_group_types s ! k = RBMVUT_BINARY"
  proof -
    from that have nb: "\<not> list_ex (\<lambda>k. m_visible_group_types s ! k \<noteq> RBMVUT_BINARY)
                          [0..<nat (m_num_visible_groups s)]"
      by (simp add: all_binary_iff)
    note st = pseudo_likelihood_state(1) [OF nb, where ops = ops and visible = visible and buffer = buffer,
      folded b_def, folded s1_def]
    show ?thesis
      using arg_cong [OF st, of visible_state] arg_cong [OF st, of hidden_state]
        arg_cong [OF st, of m_batch_size]
      by (simp add: s1_def)
  qed
  have rej: "pseudo_likelihood ops visible buffer s =
            (Inl (Fatal ''Pseudo-likelihood is only supported for binary visible units'' []), s)"
    if "\<not> (\<forall>k < nat (m_num_visible_groups s). m_visible_group_types s ! k = RBMVUT_BINARY)"
    using that pseudo_likelihood_rejects [where s = s and ops = ops and visible = visible and buffer = buffer] by (simp add: all_binary_iff)
  have fresh: "hidden_state s1 = new_matrix (m_num_hidden s) b \<and>
            num_rows (visible_state s1) = nat (m_num_visible s) \<and>
            num_cols (visible_state s1) = nat b \<and>
            (\<forall>i < nat (m_num_visible s). \<forall>j < nat b.
               mat_at (visible_state s1) i j =
               (if nth_draw ops (m_prng s) (i * nat b + j) > 0.5 then 1 else 0))"
    if ne: "m_batch_size s \<noteq> b"
    using set_batch_size_changed(2,4,5,7) [OF ne, where ops = ops] by (simp add: s1_def)
  show ?thesis
    using fe re1 re2 re(2,3) pl rej fresh by blast
qed

theorem queries_set_batch_size_witness:
  "(let s = RBM_hidden_visible 1 1 RBMVUT_BINARY ([0.7], []);
        t = RBM_hidden_visible 1 1 RBMVUT_GAUSSIAN ([0.7], []);
        v = \<lparr>matrix = [1], num_rows = 1, num_cols = 1\<rparr>
    in m_batch_size s \<noteq> int (num_cols v) \<and>
       (\<forall>k < nat (m_num_visible_groups s). m_visible_group_types s ! k = RBMVUT_BINARY) \<and>
       matrix (visible_state (snd (free_energy replay_ops v empty_matrix s))) = [1] \<and>
       matrix (visible_state (snd (reconstruction_error replay_ops v empty_matrix s))) = [1] \<and>
       matrix (visible_state (snd (pseudo_likelihood replay_ops v empty_matrix s))) = [1] \<and>
       (0::nat) < nat 1 \<and>
       mat_at (visible_state (snd (free_energy replay_ops v empty_matrix s))) 0 0 =
         (if nth_draw replay_ops ([0.7], []) (0 * nat 1 + 0) > 0.5 then 1 else 0) \<and>
       \<not> (\<forall>k < nat (m_num_visible_groups t). m_visible_group_types t ! k = RBMVUT_BINARY) \<and>
       snd (pseudo_likelihood replay_ops v empty_matrix t) = t)"
  using queries_set_batch_size
          [where ops = replay_ops and visible = "\<lparr>matrix = [1], num_rows = 1, num_cols = 1\<rparr>"
             and buffer = empty_matrix and s = "RBM_hidden_visible 1 1 RBMVUT_BINARY ([0.7], [])"]
        queries_set_batch_size
          [where ops = replay_ops and visible = "\<lparr>matrix = [1], num_rows = 1, num_cols = 1\<rparr>"
             and buffer = empty_matrix and s = "RBM_hidden_visible 1 1 RBMVUT_GAUSSIAN ([0.7], [])"]
  by (simp add: build_simps set_batch_size_def reset_chain_def chain_body_def replay_ops_def
        mat_set_def mat_at_def nth_draw_def draw_state_def)

subsection \<open>The mini-batch step of the trainer\<close>

lemma chain_frame_refl [simp]: "chain_frame s s"
  by (simp add: chain_frame_def)

lemma chain_frame_trans:
  assumes "chain_frame s s'" and "chain_frame s' s''"
  shows "chain_frame s s''"
proof -
  obtain h v g b where 1: "s' = s\<lparr>hidden_state := h, visible_state := v, m_prng := g, m_batch_size := b\<rparr>"
    using assms(1) unfolding chain_frame_def by blast
  obtain h' v' g' b' where 2: "s'' = s'\<lparr>hidden_state := h', visible_state := v', m_prng := g', m_batch_size := b'\<rparr>"
    using assms(2) unfolding chain_frame_def by blast
  show ?thesis unfolding chain_frame_def by (simp add: 1 2)
qed

lemma chain_frame_fields:
  assumes "chain_frame s s'"
  shows "m_params s' = m_params s" "m_num_params s' = m_num_params s"
    "gd_momentum s' = gd_momentum s" "m_num_visible s' = m_num_visible s"
    "m_num_hidden s' = m_num_hidden s" "monitoring_interval s' = monitoring_interval s"
    "monitoring_method s' = monitoring_method s" "gd_mini_batch_size s' = gd_mini_batch_size s"
    "gd_learning_rate_decay s' = gd_learning_rate_decay s"
proof -
  obtain h v g b where 1: "s' = s\<lparr>hidden_state := h, visible_state := v, m_prng := g, m_batch_size := b\<rparr>"
    using assms unfolding chain_frame_def by blast
  show "m_params s' = m_params s" "m_num_params s' = m_num_params s"
    "gd_momentum s' = gd_momentum s" "m_num_visible s' = m_num_visible s"
    "m_num_hidden s' = m_num_hidden s" "monitoring_interval s' = monitoring_interval s"
    "monitoring_method s' = monitoring_method s" "gd_mini_batch_size s' = gd_mini_batch_size s"
    "gd_learning_rate_decay s' = gd_learning_rate_decay s"
    by (simp_all add: 1)
qed

lemma chain_frame_set_batch_size [simp]: "chain_frame s (set_batch_size ops b s)"
  by (simp add: chain_frame_def set_batch_size_def reset_chain_def split_beta)

lemma chain_frame_hidden [simp]: "chain_frame s (s\<lparr>hidden_state := h\<rparr>)"
  by (simp add: chain_frame_def)

lemma chain_frame_cd_step: "chain_frame s (cd_step ops i s)"
  by (simp add: chain_frame_def cd_step_def Let_def split_beta)

lemma chain_frame_cd_steps: "chain_frame s (fold (cd_step ops) [0..<n] s)"
  by (rule fold_upt_inv [where I = "\<lambda>_ s'. chain_frame s s'"])
     (auto intro: chain_frame_trans chain_frame_cd_step)

lemma write_range_length [simp]: "length (write_range start n f xs) = length xs"
  unfolding write_range_def
  by (rule fold_upt_inv [where I = "\<lambda>_ ys. length ys = length xs"]) simp_all

lemma free_energy_gradients_frame:
  assumes "length grads = length (m_params s)"
  shows "chain_frame s (snd (free_energy_gradients ops visible grads phase hm s))"
    and "length (fst (free_energy_gradients ops visible grads phase hm s)) = length grads"
proof -
  let ?s1 = "set_batch_size ops (int (num_cols visible)) s"
  have p: "m_params ?s1 = m_params s"
    using chain_frame_fields(1) [OF chain_frame_set_batch_size] .
  show "length (fst (free_energy_gradients ops visible grads phase hm s)) = length grads"
    using assms p
    by (simp add: free_energy_gradients_def Let_def get_weights_def view_vec_def)
  show "chain_frame s (snd (free_energy_gradients ops visible grads phase hm s))"
  proof (cases "length grads = 0")
    case False
    then show ?thesis
      by (simp add: free_energy_gradients_def Let_def get_weights_def)
  next
    case True
    with assms p have e: "m_params ?s1 = []" by simp
    have w: "write_range a n f [] = []" for a n f
    proof -
      have "length (write_range a n f []) = 0" by simp
      then show ?thesis by (simp only: length_0_conv)
    qed
    have "snd (free_energy_gradients ops visible grads phase hm s) = ?s1\<lparr>m_params := []\<rparr>"
      using True e
      by (simp add: free_energy_gradients_def Let_def get_weights_def view_vec_def w)
    also have "\<dots> = ?s1" using e by (metis RBM.surjective RBM.update_convs(20))
    finally show ?thesis by simp
  qed
qed


lemma regularization_length [simp]: "length (regularization s g) = length g"
proof -
  have "length (fold (\<lambda>i g. g[F i := G i g]) [0..<n] g0) = length g0" for F G n and g0 :: "real list"
    by (rule fold_upt_inv [where I = "\<lambda>_ ys. length ys = length g0"]) simp_all
  then show ?thesis by (simp add: regularization_def Let_def)
qed

lemma contrastive_divergence_frame:
  fixes s :: "'g RBM"
  assumes len: "length grads = length (m_params s)"
  shows "chain_frame s (snd (contrastive_divergence ops visible_batch grads s))"
    and "length (fst (contrastive_divergence ops visible_batch grads s)) = length grads"
proof -
  define s1 where "s1 = set_batch_size ops (int (num_cols visible_batch)) s"
  define s2 where "s2 = s1\<lparr>hidden_state := mean_hidden s1 visible_batch (hidden_state s1)\<rparr>"
  define r1 where "r1 = free_energy_gradients ops visible_batch grads True (hidden_state s2) s2"
  define s4 where "s4 = fold (cd_step ops) [0..<nat (cd_num_steps (snd r1))] (snd r1)"
  define s5 where "s5 = s4\<lparr>hidden_state := mean_hidden s4 (visible_state s4) (hidden_state s4)\<rparr>"
  define r2 where "r2 = free_energy_gradients ops (visible_state s5) (fst r1) False (hidden_state s5) s5"
  have cd: "contrastive_divergence ops visible_batch grads s = (regularization (snd r2) (fst r2), snd r2)"
    by (simp add: contrastive_divergence_def Let_def split_beta s1_def s2_def r1_def s4_def s5_def r2_def)
  have f2: "chain_frame s s2"
    unfolding s2_def s1_def
    by (rule chain_frame_trans [OF chain_frame_set_batch_size chain_frame_hidden])
  then have len2: "length grads = length (m_params s2)"
    using len by (simp add: chain_frame_fields(1))
  have f3: "chain_frame s2 (snd r1)" and l1: "length (fst r1) = length grads"
    unfolding r1_def using free_energy_gradients_frame [OF len2] by simp_all
  have f4: "chain_frame (snd r1) s4"
    unfolding s4_def by (rule chain_frame_cd_steps)
  have f5: "chain_frame s4 s5"
    unfolding s5_def by (rule chain_frame_hidden)
  have f05: "chain_frame s s5"
    using f2 f3 f4 f5 by (blast intro: chain_frame_trans)
  then have len5: "length (fst r1) = length (m_params s5)"
    using len l1 by (simp add: chain_frame_fields(1))
  have f6: "chain_frame s5 (snd r2)" and l2: "length (fst r2) = length (fst r1)"
    unfolding r2_def using free_energy_gradients_frame [OF len5] by simp_all
  show "chain_frame s (snd (contrastive_divergence ops visible_batch grads s))"
    using f05 f6 by (simp add: cd) (blast intro: chain_frame_trans)
  show "length (fst (contrastive_divergence ops visible_batch grads s)) = length grads"
    using l1 l2 by (simp add: cd)
qed

lemma fold_update_nth:
  fixes xs :: "'a list"
  shows "length (fold (\<lambda>i ys. ys[i := f i (ys ! i)]) [0..<n] xs) = length xs"
    and "k < length xs \<Longrightarrow>
         fold (\<lambda>i ys. ys[i := f i (ys ! i)]) [0..<n] xs ! k = (if k < n then f k (xs ! k) else xs ! k)"
proof -
  let ?I = "\<lambda>m ys. length ys = length xs \<and>
              (\<forall>k < length xs. ys ! k = (if k < m then f k (xs ! k) else xs ! k))"
  have "?I n (fold (\<lambda>i ys. ys[i := f i (ys ! i)]) [0..<n] xs)"
    by (rule fold_upt_inv) (auto simp: nth_list_update less_Suc_eq)
  then show "length (fold (\<lambda>i ys. ys[i := f i (ys ! i)]) [0..<n] xs) = length xs"
    and "k < length xs \<Longrightarrow>
         fold (\<lambda>i ys. ys[i := f i (ys ! i)]) [0..<n] xs ! k = (if k < n then f k (xs ! k) else xs ! k)"
    by simp_all
qed

lemma fold_pair:
  "fold (\<lambda>k (u, p). (F k u, G k p)) ks (u, p) = (fold F ks u, fold G ks p)"
  by (induction ks arbitrary: u p) simp_all

lemma reconstruction_error_frame: "chain_frame s (snd (reconstruction_error ops visible buffer s))"
proof -
  have "chain_frame (set_batch_size ops (int (num_cols visible)) s)
          (snd (reconstruction_error ops visible buffer s))"
    by (simp add: chain_frame_def reconstruction_error_def Let_def split_beta)
  then show ?thesis
    by (rule chain_frame_trans [OF chain_frame_set_batch_size])
qed

lemma pseudo_likelihood_frame:
  fixes s :: "'a RBM"
  shows "chain_frame s (snd (pseudo_likelihood ops visible buffer s))"
proof (cases "list_ex (\<lambda>k. m_visible_group_types s ! k \<noteq> RBMVUT_BINARY) [0..<nat (m_num_visible_groups s)]")
  case True
  then show ?thesis by (simp add: pseudo_likelihood_rejects)
next
  case False
  have "chain_frame (r\<lparr>m_prng := x\<rparr>) r" for r :: "'a RBM" and x
    by (simp add: chain_frame_def)
  from this [where r = "snd (pseudo_likelihood ops visible buffer s)"
               and x = "m_prng (set_batch_size ops (int (num_cols visible)) s)"]
  have "chain_frame (set_batch_size ops (int (num_cols visible)) s)
          (snd (pseudo_likelihood ops visible buffer s))"
    by (simp only: pseudo_likelihood_state(1)
          [OF False, where ops = ops and visible = visible and buffer = buffer])
  then show ?thesis
    by (rule chain_frame_trans [OF chain_frame_set_batch_size])
qed


lemma momentum_step_lookahead:
  assumes "length p = n" and "length u = n"
  shows "momentum_step m u n p = map2 (\<lambda>p u. p + m * u) p u"
  unfolding momentum_step_def
proof (rule nth_equalityI)
  show "length (fold (\<lambda>k p. p[k := p ! k + m * u ! k]) [0..<n] p) = length (map2 (\<lambda>p u. p + m * u) p u)"
    using assms fold_update_nth(1) [of "\<lambda>k x. x + m * u ! k" n p] by simp
next
  fix k assume "k < length (fold (\<lambda>k p. p[k := p ! k + m * u ! k]) [0..<n] p)"
  then have k: "k < n"
    using assms fold_update_nth(1) [of "\<lambda>k x. x + m * u ! k" n p] by simp
  then show "fold (\<lambda>k p. p[k := p ! k + m * u ! k]) [0..<n] p ! k = map2 (\<lambda>p u. p + m * u) p u ! k"
    using assms fold_update_nth(2) [of k p "\<lambda>k x. x + m * u ! k" n] by simp
qed

lemma gradient_step_nth:
  assumes "length u = n" and "length p = n"
  shows "length (fst (gradient_step m a g n (u, p))) = n"
    and "length (snd (gradient_step m a g n (u, p))) = n"
    and "k < n \<Longrightarrow> fst (gradient_step m a g n (u, p)) ! k = m * u ! k - a * g ! k"
    and "k < n \<Longrightarrow> snd (gradient_step m a g n (u, p)) ! k = p ! k - a * g ! k"
proof -
  have split: "gradient_step m a g n (u, p) =
     (fold (\<lambda>k u. u[k := m * u ! k - a * g ! k]) [0..<n] u,
      fold (\<lambda>k p. p[k := p ! k - a * g ! k]) [0..<n] p)"
    unfolding gradient_step_def by (rule fold_pair)
  show "length (fst (gradient_step m a g n (u, p))) = n"
    using fold_update_nth(1) [of "\<lambda>k x. m * x - a * g ! k" n u] assms by (simp add: split)
  show "length (snd (gradient_step m a g n (u, p))) = n"
    using fold_update_nth(1) [of "\<lambda>k x. x - a * g ! k" n p] assms by (simp add: split)
  show "k < n \<Longrightarrow> fst (gradient_step m a g n (u, p)) ! k = m * u ! k - a * g ! k"
    using fold_update_nth(2) [of k u "\<lambda>k x. m * x - a * g ! k" n] assms by (simp add: split)
  show "k < n \<Longrightarrow> snd (gradient_step m a g n (u, p)) ! k = p ! k - a * g ! k"
    using fold_update_nth(2) [of k p "\<lambda>k x. x - a * g ! k" n] assms by (simp add: split)
qed

lemma monitor_frame: "chain_frame s (snd (monitor ops batch buffer cnt s))"
  unfolding monitor_def
  using reconstruction_error_frame [of s ops batch buffer]
    pseudo_likelihood_frame [of s ops batch buffer]
  by (auto split: ERBMMonitoringMethod.split prod.split sum.split)

text \<open>
  C3.  One pass of the mini-batch loop of \<open>train\<close>, from any locals and state whose three
  vectors have \<open>m_num_params\<close> entries.  The learning rate of the step is the old one times
  \<open>gd_learning_rate_decay\<close>; the gradients are those \<open>contrastive_divergence\<close> computes in
  the state whose parameters have already moved by momentum times velocity; the new
  velocity is momentum times the old velocity minus the learning rate times the gradient;
  and every parameter ends at its old value plus the new velocity.
\<close>

theorem train_minibatch_momentum_update:
  fixes s :: "'g RBM" and ops :: "'g prng_ops" and inputs buffer :: SGMatrix
    and l :: train_locals and j :: int
  assumes lp: "length (m_params s) = nat (m_num_params s)"
    and lu: "length (param_updates l) = nat (m_num_params s)"
    and lg: "length (gradients l) = nat (m_num_params s)"
  defines "batch \<equiv> inputs_batch_at inputs (gd_mini_batch_size s)
                     (batch_start inputs (gd_mini_batch_size s) j)"
  defines "r \<equiv> train_minibatch ops inputs buffer j (l, s)"
  defines "l' \<equiv> fst (snd (snd r))"
  defines "s' \<equiv> snd (snd (snd r))"
  shows "alpha l' = gd_learning_rate_decay s * alpha l \<and>
         gradients l' = fst (contrastive_divergence ops batch (gradients l) (lookahead l s)) \<and>
         (\<forall>k < nat (m_num_params s).
            param_updates l' ! k = gd_momentum s * param_updates l ! k - alpha l' * gradients l' ! k) \<and>
         (\<forall>k < nat (m_num_params s). m_params s' ! k = m_params s ! k + param_updates l' ! k) \<and>
         length (param_updates l') = nat (m_num_params s) \<and>
         length (m_params s') = nat (m_num_params s) \<and>
         counter l' = counter l + 1"
proof -
  let ?n = "nat (m_num_params s)"
  define s1 where "s1 = lookahead l s"
  define cd where "cd = contrastive_divergence ops batch (gradients l) s1"
  define a where "a = gd_learning_rate_decay s * alpha l"
  define up where "up = gradient_step (gd_momentum s) a (fst cd) ?n (param_updates l, m_params s1)"
  define s3 where "s3 = (snd cd)\<lparr>m_params := snd up\<rparr>"
  define mon where "mon = monitor ops batch buffer (counter l) s3"
  have s1_eq: "s\<lparr>m_params := momentum_step (gd_momentum s) (param_updates l) ?n (m_params s)\<rparr> = s1"
    using momentum_step_lookahead [OF lp lu] by (simp add: s1_def lookahead_def)
  have p1_len: "length (m_params s1) = ?n"
    using lp lu by (simp add: s1_def lookahead_def)
  have p1_nth: "m_params s1 ! k = m_params s ! k + gd_momentum s * param_updates l ! k" if "k < ?n" for k
    using that lp lu by (simp add: s1_def lookahead_def)
  have len1: "length (gradients l) = length (m_params s1)"
    using lg p1_len by simp
  have fr: "chain_frame s1 (snd cd)"
    using contrastive_divergence_frame(1) [OF len1, of ops batch] by (simp add: cd_def)
  have s2_fields: "m_params (snd cd) = m_params s1" "gd_momentum (snd cd) = gd_momentum s"
    "m_num_params (snd cd) = m_num_params s"
    using chain_frame_fields [OF fr] by (simp_all add: s1_def lookahead_def)
  have r_eq: "r = (fst mon, batch_start inputs (gd_mini_batch_size s) j,
                   \<lparr>alpha = a, param_updates = fst up, gradients = fst cd, counter = counter l + 1\<rparr>,
                   snd mon)"
    unfolding r_def train_minibatch_def
    by (simp add: Let_def case_prod_unfold s1_eq batch_def [symmetric] cd_def [symmetric]
          s2_fields a_def [symmetric] up_def [symmetric] s3_def [symmetric] mon_def [symmetric])
  have params': "m_params s' = snd up"
    using chain_frame_fields(1) [OF monitor_frame [of s3 ops batch buffer "counter l"]]
    by (simp add: s'_def r_eq s3_def mon_def)
  have l'_eq: "l' = \<lparr>alpha = a, param_updates = fst up, gradients = fst cd, counter = counter l + 1\<rparr>"
    by (simp add: l'_def r_eq)
  note gs = gradient_step_nth [OF lu p1_len, where m = "gd_momentum s" and a = a and g = "fst cd",
      folded up_def]
  have p'_nth: "snd up ! k = m_params s ! k + fst up ! k" if "k < ?n" for k
    using gs(3,4) [OF that] p1_nth [OF that] by simp
  show ?thesis
    using gs p'_nth
    by (simp add: l'_eq params' a_def cd_def s1_def)
qed


theorem train_minibatch_momentum_update_witness:
  "(let s = (RBM_hidden_visible 1 1 RBMVUT_BINARY ([], []))
              \<lparr>m_num_params := 3, m_params := [1, 2, 3], gd_learning_rate_decay := 0.5\<rparr>;
        l = \<lparr>alpha = 0.1, param_updates = [1, 1, 1], gradients = [0, 0, 0], counter = 1\<rparr>;
        inputs = \<lparr>matrix = [1], num_rows = 1, num_cols = 1\<rparr>;
        r = train_minibatch replay_ops inputs empty_matrix 0 (l, s);
        l' = fst (snd (snd r));
        s' = snd (snd (snd r))
    in length (m_params s) = nat (m_num_params s) \<and>
       length (param_updates l) = nat (m_num_params s) \<and>
       length (gradients l) = nat (m_num_params s) \<and>
       alpha l' = 0.05 \<and>
       (2::nat) < nat (m_num_params s) \<and>
       param_updates l' ! 2 = 0.9 - 0.05 * gradients l' ! 2 \<and>
       m_params s' ! 2 = 3 + param_updates l' ! 2 \<and>
       counter l' = 2)"
proof -
  let ?s = "(RBM_hidden_visible 1 1 RBMVUT_BINARY (([], []) :: real list \<times> int list))
              \<lparr>m_num_params := 3, m_params := [1, 2, 3], gd_learning_rate_decay := 0.5\<rparr>"
  let ?l = "\<lparr>alpha = 0.1, param_updates = [1, 1, 1], gradients = [0, 0, 0], counter = 1\<rparr>"
  let ?inputs = "\<lparr>matrix = [1], num_rows = 1, num_cols = 1\<rparr>"
  have h: "length (m_params ?s) = nat (m_num_params ?s)"
    "length (param_updates ?l) = nat (m_num_params ?s)"
    "length (gradients ?l) = nat (m_num_params ?s)"
    by (simp_all add: build_simps)
  note t = train_minibatch_momentum_update
    [OF h, where ops = replay_ops and inputs = ?inputs and buffer = empty_matrix and j = 0]
  have k: "(2::nat) < nat (m_num_params ?s)" by (simp add: build_simps)
  from t have a: "alpha (fst (snd (snd (train_minibatch replay_ops ?inputs empty_matrix 0 (?l, ?s))))) = 0.05"
    by (simp add: build_simps)
  from t k have u: "param_updates (fst (snd (snd (train_minibatch replay_ops ?inputs empty_matrix 0 (?l, ?s))))) ! 2 =
       0.9 - 0.05 * gradients (fst (snd (snd (train_minibatch replay_ops ?inputs empty_matrix 0 (?l, ?s))))) ! 2"
    using a by (simp add: build_simps)
  from t k have p: "m_params (snd (snd (snd (train_minibatch replay_ops ?inputs empty_matrix 0 (?l, ?s))))) ! 2 =
       3 + param_updates (fst (snd (snd (train_minibatch replay_ops ?inputs empty_matrix 0 (?l, ?s))))) ! 2"
    by (simp add: build_simps)
  from t have c: "counter (fst (snd (snd (train_minibatch replay_ops ?inputs empty_matrix 0 (?l, ?s))))) = 2"
    by (simp add: build_simps)
  show ?thesis
    using h k a u p c by (simp add: Let_def)
qed

subsection \<open>The free energy\<close>

lemma write_range_nth:
  assumes "t < length xs"
  shows "write_range start n f xs ! t = (if start \<le> t \<and> t < start + n then f (t - start) else xs ! t)"
proof -
  let ?I = "\<lambda>m ys. length ys = length xs \<and>
              (\<forall>t < length xs. ys ! t = (if start \<le> t \<and> t < start + m then f (t - start) else xs ! t))"
  have "?I n (fold (\<lambda>t ys. ys[start + t := f t]) [0..<n] xs)"
  proof (rule fold_upt_inv [where I = ?I])
    show "?I 0 xs" by simp
  next
    fix m ys assume "m < n" and inv: "?I m ys"
    show "?I (Suc m) (ys[start + m := f m])"
    proof (intro conjI allI impI)
      show "length (ys[start + m := f m]) = length xs" using inv by simp
    next
      fix t assume t: "t < length xs"
      show "ys[start + m := f m] ! t =
            (if start \<le> t \<and> t < start + Suc m then f (t - start) else xs ! t)"
      proof (cases "t = start + m")
        case True
        then show ?thesis using inv t by simp
      next
        case False
        then have "ys[start + m := f m] ! t = ys ! t" by simp
        also have "\<dots> = (if start \<le> t \<and> t < start + m then f (t - start) else xs ! t)"
          using inv t by simp
        finally show ?thesis using False by (auto simp: less_Suc_eq)
      qed
    qed
  qed
  then show ?thesis using assms by (simp add: write_range_def)
qed

lemma fold_add_sum:
  fixes a :: real
  shows "fold (\<lambda>i a. a + f i) [0..<n] a = a + (\<Sum>i<n. f i)"
  by (induction n) simp_all

lemma fold_add_sum2:
  fixes a :: real
  shows "fold (\<lambda>i. fold (\<lambda>j a. a + f i j) [0..<m]) [0..<n] a = a + (\<Sum>i<n. \<Sum>j<m. f i j)"
  by (induction n) (simp_all add: fold_add_sum)

lemma flat_mod_div:
  fixes i :: nat
  assumes "i < R"
  shows "(j * R + i) mod R = i" "(j * R + i) div R = j"
  using assms by simp_all

lemma chain_frame_maps:
  assumes "chain_frame s s'"
  shows "W_map s' = W_map s" "B_map s' = B_map s" "C_map s' = C_map s"
    "m_visible_group_types s' = m_visible_group_types s"
    "m_visible_group_sizes s' = m_visible_group_sizes s"
    "m_visible_state_offsets s' = m_visible_state_offsets s"
    "m_num_visible_groups s' = m_num_visible_groups s"
proof -
  obtain h v g b where 1: "s' = s\<lparr>hidden_state := h, visible_state := v, m_prng := g, m_batch_size := b\<rparr>"
    using assms unfolding chain_frame_def by blast
  show "W_map s' = W_map s" "B_map s' = B_map s" "C_map s' = C_map s"
    by (auto simp: 1 fun_eq_iff W_map_def B_map_def C_map_def view_at_def view_vec_def
          get_weights_def get_visible_bias_def get_hidden_bias_def)
  show "m_visible_group_types s' = m_visible_group_types s"
    "m_visible_group_sizes s' = m_visible_group_sizes s"
    "m_visible_state_offsets s' = m_visible_state_offsets s"
    "m_num_visible_groups s' = m_num_visible_groups s"
    by (simp_all add: 1)
qed


lemma fold_group_terms:
  fixes a :: real
  shows "fold (\<lambda>k F. if P k then fold (\<lambda>i. fold (\<lambda>j F'. F' + h k i j) [0..<m]) [0..<sz k] F else F)
           [0..<n] a
         = a + (\<Sum>k<n. if P k then (\<Sum>i<sz k. \<Sum>j<m. h k i j) else 0)"
  by (induction n) (simp_all add: fold_add_sum2)

text \<open>
  C4.  For a model with at least one hidden unit and a scratch buffer that is empty (the
  default) or holds at least \<open>m_num_hidden \<times> batch_size\<close> entries, \<open>free_energy(visible)\<close>
  returns the value of the formula above for the batch size \<open>visible.num_cols\<close>.
\<close>

theorem free_energy_value:
  fixes s :: "'g RBM" and ops :: "'g prng_ops" and visible buffer :: SGMatrix
  assumes nh_pos: "0 < m_num_hidden s"
    and buf: "num_rows buffer = 0 \<or> nat (m_num_hidden s) * num_cols visible \<le> length (matrix buffer)"
  shows "fst (free_energy ops visible buffer s) = free_energy_formula s visible"
proof -
  define s1 where "s1 = set_batch_size ops (int (num_cols visible)) s"
  define nh where "nh = nat (m_num_hidden s1)"
  define nv where "nv = nat (m_num_visible s1)"
  define bs where "bs = nat (m_batch_size s1)"
  define V where "V = eigen_map_at (matrix visible) (num_rows visible)"
  define bufm where "bufm = matrix (if num_rows buffer = 0
                      then new_matrix (m_num_hidden s1) (m_batch_size s1) else buffer)"
  define buf1 where "buf1 = write_range 0 bs (\<lambda>j. \<Sum>k<nv. B_map s1 k * V k j) bufm"
  define bv_term where "bv_term = (\<Sum>j<bs. buf1 ! j)"
  define buf2 where "buf2 = write_range 0 (nh * bs) (\<lambda>t. C_map s1 (t mod nh)) buf1"
  define buf3 where "buf3 = write_range 0 (nh * bs)
                   (\<lambda>t. buf2 ! t + (\<Sum>k<nv. W_map s1 (t mod nh) k * V k (t div nh))) buf2"
  define wv_term where "wv_term =
      fold (\<lambda>i. fold (\<lambda>j a. a + ln (1 + exp (eigen_map_at buf3 nh i j))) [0..<bs]) [0..<nh] 0"
  define F0 where "F0 = -1 * (bv_term + wv_term) / real_of_int (m_batch_size s1)"
  define F where "F = fold (\<lambda>k F.
                 if m_visible_group_types s1 ! k = RBMVUT_GAUSSIAN
                 then (let offset = m_visible_state_offsets s1 ! k
                       in fold (\<lambda>i. fold (\<lambda>j F'. F' + 0.5 * (mat_at visible (group_row offset i) j)\<^sup>2
                                                    / real_of_int (m_batch_size s1))
                                      [0..<bs])
                            [0..<nat (m_visible_group_sizes s1 ! k)] F)
                 else F)
               [0..<nat (m_num_visible_groups s1)] F0"
  have val_eq: "fst (free_energy ops visible buffer s) = F"
    unfolding F_def F0_def wv_term_def buf3_def buf2_def bv_term_def buf1_def bufm_def V_def
      bs_def nv_def nh_def s1_def free_energy_def Let_def
    by simp
  have fr: "chain_frame s s1" by (simp add: s1_def)
  note same = chain_frame_fields [OF fr] chain_frame_maps [OF fr]
  have b: "m_batch_size s1 = int (num_cols visible)" by (simp add: s1_def)
  have bs: "bs = num_cols visible" by (simp add: bs_def b)
  have nh: "nh = nat (m_num_hidden s)" and nv: "nv = nat (m_num_visible s)"
    by (simp_all add: nh_def nv_def same)
  have nh1: "1 \<le> nh" using nh_pos nh by simp
  have Vm: "V k j = mat_at visible k j" for k j
    by (simp add: V_def eigen_map_at_def mat_at_def)
  have len0: "nh * bs \<le> length bufm"
    using buf by (auto simp: bufm_def new_matrix_def nh bs same b)
  have bs_le: "bs \<le> nh * bs" using nh1 by simp
  have len1: "length buf1 = length bufm" by (simp add: buf1_def)
  have len2: "length buf2 = length bufm" by (simp add: buf2_def len1)
  have buf1_nth: "buf1 ! j = (\<Sum>k<nv. B_map s k * mat_at visible k j)" if "j < bs" for j
  proof -
    have "j < length bufm" using that bs_le len0 by linarith
    then show ?thesis using that by (simp add: buf1_def write_range_nth same Vm)
  qed
  have bv: "bv_term = (\<Sum>k<nv. B_map s k * (\<Sum>j<bs. mat_at visible k j))"
  proof -
    have "bv_term = (\<Sum>j<bs. \<Sum>k<nv. B_map s k * mat_at visible k j)"
      unfolding bv_term_def by (rule sum.cong) (simp_all add: buf1_nth)
    also have "\<dots> = (\<Sum>k<nv. \<Sum>j<bs. B_map s k * mat_at visible k j)"
      by (rule sum.swap)
    finally show ?thesis by (simp add: sum_distrib_left)
  qed
  have buf3_at: "eigen_map_at buf3 nh i j =
                 C_map s i + (\<Sum>k<nv. W_map s i k * mat_at visible k j)"
    if "i < nh" "j < bs" for i j
  proof -
    have lt: "j * nh + i < nh * bs" using that by (rule flat_index_less)
    then have lt': "j * nh + i < length bufm" using len0 by linarith
    from lt lt' have "buf3 ! (j * nh + i) =
          buf2 ! (j * nh + i) + (\<Sum>k<nv. W_map s1 ((j * nh + i) mod nh) k * V k ((j * nh + i) div nh))"
      using len2 by (simp add: buf3_def write_range_nth)
    moreover have "buf2 ! (j * nh + i) = C_map s1 ((j * nh + i) mod nh)"
      using lt lt' len1 by (simp add: buf2_def write_range_nth)
    ultimately show ?thesis
      using that(1) by (simp add: eigen_map_at_def same Vm)
  qed
  have wv: "wv_term = (\<Sum>i<nh. \<Sum>j<bs.
              ln (1 + exp (C_map s i + (\<Sum>k<nv. W_map s i k * mat_at visible k j))))"
  proof -
    have "wv_term = (\<Sum>i<nh. \<Sum>j<bs. ln (1 + exp (eigen_map_at buf3 nh i j)))"
      unfolding wv_term_def by (simp add: fold_add_sum2)
    also have "\<dots> = (\<Sum>i<nh. \<Sum>j<bs.
              ln (1 + exp (C_map s i + (\<Sum>k<nv. W_map s i k * mat_at visible k j))))"
      by (intro sum.cong refl) (simp add: buf3_at)
    finally show ?thesis .
  qed
  have gauss: "F = F0 + (\<Sum>k<nat (m_num_visible_groups s).
              if m_visible_group_types s ! k = RBMVUT_GAUSSIAN
              then (\<Sum>i<nat (m_visible_group_sizes s ! k). \<Sum>j<bs.
                      0.5 * (mat_at visible (group_row (m_visible_state_offsets s ! k) i) j)\<^sup>2
                      / real bs)
              else 0)"
    unfolding F_def Let_def
    using fold_group_terms
      [where P = "\<lambda>k. m_visible_group_types s ! k = RBMVUT_GAUSSIAN"
         and h = "\<lambda>k i j. 0.5 * (mat_at visible (group_row (m_visible_state_offsets s ! k) i) j)\<^sup>2 / real bs"
         and sz = "\<lambda>k. nat (m_visible_group_sizes s ! k)" and m = bs
         and n = "nat (m_num_visible_groups s)" and a = F0]
    by (simp add: same b bs cong: if_cong)
  have g2: "(\<Sum>i<n. \<Sum>j<bs. 0.5 * (x i j)\<^sup>2 / real bs) = 0.5 * (\<Sum>i<n. \<Sum>j<bs. (x i j)\<^sup>2) / real bs"
    for n and x :: "nat \<Rightarrow> nat \<Rightarrow> real"
    by (simp add: sum_distrib_left sum_divide_distrib)
  show ?thesis
    unfolding val_eq gauss F0_def bv wv free_energy_formula_def Let_def g2
    by (simp add: nh nv bs b cong: if_cong)
qed


theorem free_energy_value_witness:
  "(let s = (RBM_hidden_visible 1 1 RBMVUT_GAUSSIAN ([0.7], []))
              \<lparr>m_num_params := 3, m_params := [0, 0, 0]\<rparr>;
        v = \<lparr>matrix = [2], num_rows = 1, num_cols = 1\<rparr>
    in 0 < m_num_hidden s \<and> num_rows empty_matrix = 0 \<and>
       fst (free_energy replay_ops v empty_matrix s) = free_energy_formula s v \<and>
       fst (free_energy replay_ops v empty_matrix s) = 2 - ln 2)"
proof -
  let ?s = "(RBM_hidden_visible 1 1 RBMVUT_GAUSSIAN (([0.7], []) :: real list \<times> int list))
              \<lparr>m_num_params := 3, m_params := [0, 0, 0]\<rparr>"
  let ?v = "\<lparr>matrix = [2], num_rows = 1, num_cols = 1\<rparr>"
  have h1: "0 < m_num_hidden ?s" by (simp add: build_simps)
  have h2: "num_rows empty_matrix = 0 \<or>
            nat (m_num_hidden ?s) * num_cols ?v \<le> length (matrix empty_matrix)"
    by (simp add: empty_matrix_def)
  note t = free_energy_value [OF h1 h2, where ops = replay_ops]
  have f: "free_energy_formula ?s ?v = 2 - ln 2"
    by (simp add: free_energy_formula_def build_simps B_map_def C_map_def W_map_def view_at_def
          view_vec_def get_weights_def get_visible_bias_def get_hidden_bias_def mat_at_def
          group_row_def)
  show ?thesis
    using h1 t f by (simp add: Let_def empty_matrix_def)
qed

subsection \<open>Blocks of the visible groups\<close>

lemma sum_list_take_le:
  fixes xs :: "int list"
  assumes "\<forall>k < length xs. 0 \<le> xs ! k"
  shows "0 \<le> sum_list (take k xs)" and "sum_list (take k xs) \<le> sum_list xs"
proof -
  have nonneg: "0 \<le> x" if "x \<in> set xs" for x
    using that assms by (auto simp: in_set_conv_nth)
  show "0 \<le> sum_list (take k xs)"
    by (rule sum_list_nonneg) (auto dest: in_set_takeD intro: nonneg)
  have "0 \<le> sum_list (drop k xs)"
    by (rule sum_list_nonneg) (auto dest: in_set_dropD intro: nonneg)
  moreover have "sum_list xs = sum_list (take k xs) + sum_list (drop k xs)"
    by (metis append_take_drop_id sum_list.append)
  ultimately show "sum_list (take k xs) \<le> sum_list xs" by simp
qed

lemma group_block_bounds:
  assumes inv: "registry_inv s"
    and nonneg: "\<forall>k < length (m_visible_group_sizes s). 0 \<le> m_visible_group_sizes s ! k"
    and k: "k < length (m_visible_state_offsets s)"
  shows "0 \<le> m_visible_state_offsets s ! k"
    and "0 \<le> m_visible_group_sizes s ! k"
    and "nat (m_visible_state_offsets s ! k) + nat (m_visible_group_sizes s ! k) \<le> nat (m_num_visible s)"
    and "m_visible_state_offsets s ! k + m_visible_group_sizes s ! k
           = sum_list (take (Suc k) (m_visible_group_sizes s))"
proof -
  let ?sz = "m_visible_group_sizes s" and ?off = "m_visible_state_offsets s"
  have len: "length ?sz = length ?off" and off: "?off ! k = sum_list (take k ?sz)"
    and tot: "sum_list ?sz = m_num_visible s"
    using inv k by (simp_all add: registry_inv_def)
  show o: "0 \<le> ?off ! k" using sum_list_take_le(1) [OF nonneg] off by simp
  show z: "0 \<le> ?sz ! k" using nonneg k len by simp
  have "take (Suc k) ?sz = take k ?sz @ [?sz ! k]"
    using k len by (simp add: take_Suc_conv_app_nth)
  then show e: "?off ! k + ?sz ! k = sum_list (take (Suc k) ?sz)" using off by simp
  have "?off ! k + ?sz ! k \<le> m_num_visible s"
    using sum_list_take_le(2) [OF nonneg, of "Suc k"] e tot by simp
  then show "nat (?off ! k) + nat (?sz ! k) \<le> nat (m_num_visible s)"
    using o z by linarith
qed

subsection \<open>Shapes are kept by the inference routines\<close>

lemma shape_softmax_pick [simp]: "shape_of (softmax_pick mean offset j r is acc R) = shape_of R"
  by (induction "is" arbitrary: acc) (simp_all add: Let_def)

lemma shape_sigmoid_block [simp]: "shape_of (sigmoid_block offset sz bs R) = shape_of R"
  by (simp add: sigmoid_block_def shape_fold)

lemma shape_softmax_column [simp]: "shape_of (softmax_column offset sz mx j R) = shape_of R"
  by (simp add: softmax_column_def Let_def shape_fold)

lemma shape_softmax_block [simp]: "shape_of (softmax_block offset sz bs R) = shape_of R"
  by (simp add: softmax_block_def Let_def shape_fold)

lemma shape_mean_visible_group [simp]: "shape_of (mean_visible_group s k R) = shape_of R"
  by (simp add: mean_visible_group_def Let_def)

lemma shape_linear_stage [simp]: "shape_of (linear_stage s hidden result) = shape_of result"
  by (simp add: linear_stage_def Let_def)

lemma shape_mean_visible [simp]: "shape_of (mean_visible s hidden R) = shape_of R"
  by (simp add: mean_visible_def shape_fold)

lemma shape_zero_block [simp]: "shape_of (zero_block offset sz bs R) = shape_of R"
  by (simp add: zero_block_def shape_fold)

lemma shape_sample_binary_block [simp]:
  "shape_of (fst (sample_binary_block ops mean offset sz bs (R, g))) = shape_of R"
  unfolding sample_binary_block_def
  by (intro shape_fold_pair) (simp add: split_beta Let_def)

lemma shape_sample_softmax_block [simp]:
  "shape_of (fst (sample_softmax_block ops mean offset sz bs (R, g))) = shape_of R"
proof -
  have "shape_of (fst (sample_softmax_block ops mean offset sz bs (R, g))) =
        shape_of (zero_block offset sz bs R)"
    unfolding sample_softmax_block_def fst_conv snd_conv
    by (intro shape_fold_pair) (simp add: split_beta Let_def)
  then show ?thesis by simp
qed

lemma shape_sample_visible_group [simp]:
  "shape_of (fst (sample_visible_group ops s k mean R g)) = shape_of R"
proof -
  obtain R1 g1 where 1: "sample_binary_block ops mean (m_visible_state_offsets s ! k)
          (nat (m_visible_group_sizes s ! k)) (nat (m_batch_size s)) (R, g) = (R1, g1)"
    by (cases "sample_binary_block ops mean (m_visible_state_offsets s ! k)
          (nat (m_visible_group_sizes s ! k)) (nat (m_batch_size s)) (R, g)")
  have "shape_of R1 = shape_of R"
    using shape_sample_binary_block [of ops mean "m_visible_state_offsets s ! k"
          "nat (m_visible_group_sizes s ! k)" "nat (m_batch_size s)" R g] 1 by simp
  then show ?thesis
    by (cases "m_visible_group_types s ! k") (simp_all add: sample_visible_group_def Let_def 1)
qed

lemma shape_clamp_evidence [simp]: "shape_of (clamp_evidence s sz offset ev vs) = shape_of vs"
  by (simp add: clamp_evidence_def shape_fold)

lemma clamp_evidence_at:
  assumes ok: "mat_ok vs" and off: "0 \<le> offset"
    and rows: "nat offset + nat sz \<le> num_rows vs" and cols: "nat (m_batch_size s) \<le> num_cols vs"
    and r: "r < num_rows vs"
  shows "mat_at (clamp_evidence s sz offset ev vs) r c =
         (if nat offset \<le> r \<and> r < nat offset + nat sz \<and> c < nat (m_batch_size s)
          then mat_at ev (r - nat offset) c else mat_at vs r c)"
  unfolding clamp_evidence_def group_row_nonneg [OF off]
  by (rule block_update [OF ok rows cols r, where f = "\<lambda>i j _. mat_at ev i j"])


subsection \<open>Sampling with evidence\<close>

lemma gibbs_frame_refl [simp]: "gibbs_frame s s"
  by (simp add: gibbs_frame_def)

lemma gibbs_frame_trans:
  assumes "gibbs_frame s s'" and "gibbs_frame s' s''"
  shows "gibbs_frame s s''"
proof -
  obtain h v g where 1: "s' = s\<lparr>hidden_state := h, visible_state := v, m_prng := g\<rparr>"
    using assms(1) unfolding gibbs_frame_def by blast
  obtain h' v' g' where 2: "s'' = s'\<lparr>hidden_state := h', visible_state := v', m_prng := g'\<rparr>"
    using assms(2) unfolding gibbs_frame_def by blast
  show ?thesis unfolding gibbs_frame_def by (simp add: 1 2)
qed

lemma gibbs_frame_fields:
  assumes "gibbs_frame s s'"
  shows "m_batch_size s' = m_batch_size s"
    "m_visible_group_sizes s' = m_visible_group_sizes s"
    "m_visible_state_offsets s' = m_visible_state_offsets s"
    "m_visible_group_types s' = m_visible_group_types s"
    "m_num_visible_groups s' = m_num_visible_groups s"
    "m_num_visible s' = m_num_visible s"
    "m_num_hidden s' = m_num_hidden s"
    "m_params s' = m_params s"
proof -
  obtain h v g where 1: "s' = s\<lparr>hidden_state := h, visible_state := v, m_prng := g\<rparr>"
    using assms unfolding gibbs_frame_def by blast
  show "m_batch_size s' = m_batch_size s"
    "m_visible_group_sizes s' = m_visible_group_sizes s"
    "m_visible_state_offsets s' = m_visible_state_offsets s"
    "m_visible_group_types s' = m_visible_group_types s"
    "m_num_visible_groups s' = m_num_visible_groups s"
    "m_num_visible s' = m_num_visible s"
    "m_num_hidden s' = m_num_hidden s"
    "m_params s' = m_params s"
    by (simp_all add: 1)
qed

text \<open>The loop of \<open>sample_with_evidence\<close> that samples every group but \<open>E\<close>.\<close>

lemma evidence_groups:
  fixes s :: "'g RBM" and ops :: "'g prng_ops" and E :: int
  defines "body \<equiv> \<lambda>k (s' :: 'g RBM). if int k \<noteq> E
                             then (let (v, g') = sample_visible_group ops s' k Same_as_result
                                                   (visible_state s') (m_prng s')
                                   in s'\<lparr>visible_state := v, m_prng := g'\<rparr>)
                             else s'"
  shows "gibbs_frame s (fold body ks s) \<and>
         shape_of (visible_state (fold body ks s)) = shape_of (visible_state s)"
proof (induction ks arbitrary: s)
  case Nil
  show ?case by simp
next
  case (Cons k ks)
  have 1: "gibbs_frame s (body k s)"
    by (simp add: body_def gibbs_frame_def split_beta Let_def)
  have 2: "shape_of (visible_state (body k s)) = shape_of (visible_state s)"
    by (simp add: body_def split_beta Let_def)
  from Cons [of "body k s"] 1 2 show ?case
    by (auto intro: gibbs_frame_trans)
qed

lemma evidence_step_clamped:
  fixes s :: "'g RBM" and ops :: "'g prng_ops" and E sz off n :: int and ev :: SGMatrix and k :: nat
  assumes shape: "nat (m_batch_size s) = 0 \<or>
                  (mat_ok (visible_state s) \<and> 0 \<le> off \<and>
                   nat off + nat sz \<le> num_rows (visible_state s) \<and>
                   nat (m_batch_size s) \<le> num_cols (visible_state s))"
  defines "s' \<equiv> evidence_step ops E sz off ev n k s"
  shows "gibbs_frame s s'"
    and "shape_of (visible_state s') = shape_of (visible_state s)"
    and "\<forall>i < nat sz. \<forall>j < nat (m_batch_size s).
           mat_at (visible_state s') (nat off + i) j = mat_at ev i j"
proof -
  define s1 where "s1 = s\<lparr>hidden_state := mean_hidden s (visible_state s) (hidden_state s)\<rparr>"
  define hg where "hg = sample_hidden ops Same_as_result (hidden_state s1) (m_prng s1)"
  define s2 where "s2 = s1\<lparr>hidden_state := fst hg, m_prng := snd hg\<rparr>"
  define s3 where "s3 = s2\<lparr>visible_state := mean_visible s2 (hidden_state s2) (visible_state s2)\<rparr>"
  define s4 where "s4 = (if int k < n - 1
                then fold (\<lambda>k s'. if int k \<noteq> E
                             then (let (v, g') = sample_visible_group ops s' k Same_as_result
                                                   (visible_state s') (m_prng s')
                                   in s'\<lparr>visible_state := v, m_prng := g'\<rparr>)
                             else s')
                       [0..<nat (m_num_visible_groups s3)] s3
                else s3)"
  have s'_eq: "s' = s4\<lparr>visible_state := clamp_evidence s4 sz off ev (visible_state s4)\<rparr>"
    unfolding s'_def evidence_step_def s4_def s3_def s2_def hg_def s1_def
    by (simp add: Let_def split_beta)
  have f3: "gibbs_frame s s3" and sh3: "shape_of (visible_state s3) = shape_of (visible_state s)"
    by (simp_all add: s3_def s2_def s1_def gibbs_frame_def)
  have f34: "gibbs_frame s3 s4 \<and> shape_of (visible_state s4) = shape_of (visible_state s3)"
    unfolding s4_def using evidence_groups [where s = s3 and E = E and ops = ops] by simp
  have f4: "gibbs_frame s s4" using f3 f34 by (blast intro: gibbs_frame_trans)
  have sh4: "shape_of (visible_state s4) = shape_of (visible_state s)" using f34 sh3 by simp
  have b4: "m_batch_size s4 = m_batch_size s" using gibbs_frame_fields(1) [OF f4] .
  have "gibbs_frame s4 s'" by (simp add: s'_eq gibbs_frame_def)
  with f4 show "gibbs_frame s s'" by (rule gibbs_frame_trans)
  show "shape_of (visible_state s') = shape_of (visible_state s)"
    using sh4 by (simp add: s'_eq)
  show "\<forall>i < nat sz. \<forall>j < nat (m_batch_size s).
           mat_at (visible_state s') (nat off + i) j = mat_at ev i j"
  proof (intro allI impI)
    fix i j assume i: "i < nat sz" and j: "j < nat (m_batch_size s)"
    from j shape have sh: "mat_ok (visible_state s)" "0 \<le> off"
      "nat off + nat sz \<le> num_rows (visible_state s)"
      "nat (m_batch_size s) \<le> num_cols (visible_state s)"
      by auto
    note d = shape_of_eqD [OF sh4]
    have "mat_at (clamp_evidence s4 sz off ev (visible_state s4)) (nat off + i) j =
          (if nat off \<le> nat off + i \<and> nat off + i < nat off + nat sz \<and> j < nat (m_batch_size s4)
           then mat_at ev (nat off + i - nat off) j else mat_at (visible_state s4) (nat off + i) j)"
      using sh d b4 i by (intro clamp_evidence_at) simp_all
    then show "mat_at (visible_state s') (nat off + i) j = mat_at ev i j"
      using i j b4 by (simp add: s'_eq)
  qed
qed


lemma visible_ok_set_batch_size:
  assumes "visible_ok s"
  shows "visible_ok (set_batch_size ops b s)"
proof (cases "m_batch_size s = b")
  case True
  then show ?thesis using assms by (simp add: set_batch_size_same)
next
  case False
  have "m_num_visible (set_batch_size ops b s) = m_num_visible s"
    using chain_frame_fields(4) [OF chain_frame_set_batch_size] .
  then show ?thesis
    using set_batch_size_changed(1,3,4,5) [OF False, where ops = ops]
    by (simp add: visible_ok_def)
qed

lemma copy_group_shape:
  "shape_of (copy_group s sz offset) = (nat sz, nat (m_batch_size s), nat sz * nat (m_batch_size s))"
  by (simp add: copy_group_def shape_fold) (simp add: shape_of_def new_matrix_def)

lemma copy_group_at:
  assumes "i < nat sz" and "j < nat (m_batch_size s)"
  shows "mat_at (copy_group s sz offset) i j = mat_at (visible_state s) (group_row offset i) j"
proof -
  have "mat_at (fold (\<lambda>i. fold (\<lambda>j R. mat_set R (0 + i) j
                   ((\<lambda>i j _. mat_at (visible_state s) (group_row offset i) j) i j (mat_at R (0 + i) j)))
                 [0..<nat (m_batch_size s)])
          [0..<nat sz] (new_matrix sz (m_batch_size s))) i j =
        (if 0 \<le> i \<and> i < 0 + nat sz \<and> j < nat (m_batch_size s)
         then (\<lambda>i j _. mat_at (visible_state s) (group_row offset i) j) (i - 0) j
                (mat_at (new_matrix sz (m_batch_size s)) i j)
         else mat_at (new_matrix sz (m_batch_size s)) i j)"
    using assms by (intro block_update) simp_all
  then show ?thesis using assms by (simp add: copy_group_def)
qed

lemma vec_at_Some: "0 \<le> i \<Longrightarrow> i < int (length xs) \<Longrightarrow> vec_at xs i = Some (xs ! nat i)"
  by (simp add: vec_at_def)

text \<open>
  C9.  \<open>sample_group_with_evidence(V, E, evidence, num_gibbs_steps)\<close> with \<open>V = E\<close>, for a
  valid group index, a registry built by \<open>add_visible_group\<close> with sizes that are not
  negative, and a visible buffer as \<open>set_batch_size\<close> leaves it.  For every evidence matrix
  and every number of Gibbs steps the call returns a matrix with one row per unit of the
  group and one column per evidence column whose every entry is the evidence entry at
  the same position; when the evidence has exactly the rows of the group, the returned
  matrix is the evidence.
\<close>

theorem sample_group_with_evidence_clamped:
  fixes s :: "'g RBM" and ops :: "'g prng_ops" and E n :: int and evidence :: SGMatrix
  assumes inv: "registry_inv s"
    and nonneg: "\<forall>k < length (m_visible_group_sizes s). 0 \<le> m_visible_group_sizes s ! k"
    and E0: "0 \<le> E" and E1: "E < m_num_visible_groups s"
    and vok: "visible_ok s"
  defines "sz \<equiv> m_visible_group_sizes s ! nat E"
  shows "\<exists>R. fst (sample_group_with_evidence ops E E evidence n s) = Inr R \<and>
             num_rows R = nat sz \<and> num_cols R = num_cols evidence \<and>
             (\<forall>i < nat sz. \<forall>j < num_cols evidence. mat_at R i j = mat_at evidence i j) \<and>
             (mat_ok evidence \<and> num_rows evidence = nat sz \<longrightarrow> R = evidence)"
proof -
  define off where "off = m_visible_state_offsets s ! nat E"
  define cols where "cols = num_cols evidence"
  define s1 where "s1 = set_batch_size ops (int cols) s"
  define s2 where "s2 = s1\<lparr>visible_state := clamp_evidence s1 sz off evidence (visible_state s1)\<rparr>"
  define s3 where "s3 = fold (evidence_step ops E sz off evidence n) [0..<nat n] s2"
  have lens: "length (m_visible_group_sizes s) = length (m_visible_state_offsets s)"
    "m_num_visible_groups s = int (length (m_visible_state_offsets s))"
    using inv by (simp_all add: registry_inv_def)
  have e: "nat E < length (m_visible_state_offsets s)" using E0 E1 lens by simp
  note bounds = group_block_bounds [OF inv nonneg e, folded off_def sz_def]
  have fr1: "chain_frame s s1" by (simp add: s1_def)
  note same1 = chain_frame_fields [OF fr1] chain_frame_maps [OF fr1]
  have b1: "m_batch_size s1 = int cols" by (simp add: s1_def)
  have vok1: "visible_ok s1" unfolding s1_def by (rule visible_ok_set_batch_size [OF vok])
  have shape1: "nat (m_batch_size s1) = 0 \<or>
                  (mat_ok (visible_state s1) \<and> 0 \<le> off \<and>
                   nat off + nat sz \<le> num_rows (visible_state s1) \<and>
                   nat (m_batch_size s1) \<le> num_cols (visible_state s1))"
    using vok1 bounds(1,3) by (auto simp: visible_ok_def same1)
  have fr2: "gibbs_frame s1 s2" by (simp add: s2_def gibbs_frame_def)
  have sh2: "shape_of (visible_state s2) = shape_of (visible_state s1)" by (simp add: s2_def)
  have b2: "m_batch_size s2 = int cols" using gibbs_frame_fields(1) [OF fr2] b1 by simp
  have shape2: "nat (m_batch_size s2) = 0 \<or>
                  (mat_ok (visible_state s2) \<and> 0 \<le> off \<and>
                   nat off + nat sz \<le> num_rows (visible_state s2) \<and>
                   nat (m_batch_size s2) \<le> num_cols (visible_state s2))"
    using shape1 shape_of_eqD [OF sh2] b1 b2 by auto
  have ent2: "\<forall>i < nat sz. \<forall>j < cols. mat_at (visible_state s2) (nat off + i) j = mat_at evidence i j"
  proof (intro allI impI)
    fix i j assume i: "i < nat sz" and j: "j < cols"
    from j shape1 b1 have sh: "mat_ok (visible_state s1)" "0 \<le> off"
      "nat off + nat sz \<le> num_rows (visible_state s1)"
      "nat (m_batch_size s1) \<le> num_cols (visible_state s1)"
      by auto
    have "mat_at (clamp_evidence s1 sz off evidence (visible_state s1)) (nat off + i) j =
          (if nat off \<le> nat off + i \<and> nat off + i < nat off + nat sz \<and> j < nat (m_batch_size s1)
           then mat_at evidence (nat off + i - nat off) j else mat_at (visible_state s1) (nat off + i) j)"
      using sh i by (intro clamp_evidence_at) simp_all
    then show "mat_at (visible_state s2) (nat off + i) j = mat_at evidence i j"
      using i j b1 by (simp add: s2_def)
  qed
  let ?I = "\<lambda>(m :: nat) s'. gibbs_frame s2 s' \<and> shape_of (visible_state s') = shape_of (visible_state s2) \<and>
              (\<forall>i < nat sz. \<forall>j < cols. mat_at (visible_state s') (nat off + i) j = mat_at evidence i j)"
  have I3: "?I (nat n) s3"
    unfolding s3_def
  proof (rule fold_upt_inv [where I = ?I])
    show "?I 0 s2" using ent2 by simp
  next
    fix m s' assume "m < nat n" and I: "?I m s'"
    from I have fr: "gibbs_frame s2 s'" and sh: "shape_of (visible_state s') = shape_of (visible_state s2)"
      by simp_all
    have b: "m_batch_size s' = m_batch_size s2" using gibbs_frame_fields(1) [OF fr] .
    have shape': "nat (m_batch_size s') = 0 \<or>
                  (mat_ok (visible_state s') \<and> 0 \<le> off \<and>
                   nat off + nat sz \<le> num_rows (visible_state s') \<and>
                   nat (m_batch_size s') \<le> num_cols (visible_state s'))"
      using shape2 shape_of_eqD [OF sh] b by auto
    note st = evidence_step_clamped [OF shape', where ops = ops and E = E and ev = evidence
        and n = n and k = m]
    show "?I (Suc m) (evidence_step ops E sz off evidence n m s')"
      using st fr sh b b2 by (auto intro: gibbs_frame_trans)
  qed
  then have fr3: "gibbs_frame s2 s3"
    and ent3: "\<And>i j. i < nat sz \<Longrightarrow> j < cols \<Longrightarrow>
                 mat_at (visible_state s3) (nat off + i) j = mat_at evidence i j"
    by simp_all
  have fr13: "gibbs_frame s1 s3" using fr2 fr3 by (rule gibbs_frame_trans)
  note same3 = gibbs_frame_fields [OF fr13]
  have b3: "m_batch_size s3 = int cols" using same3(1) b1 by simp
  have v1: "vec_at (m_visible_state_offsets s1) E = Some off"
    "vec_at (m_visible_group_sizes s1) E = Some sz"
    using E0 E1 lens by (simp_all add: same1 vec_at_Some off_def sz_def)
  have v3: "vec_at (m_visible_state_offsets s3) E = Some off"
    "vec_at (m_visible_group_sizes s3) E = Some sz"
    using v1 by (simp_all add: same3)
  have swe: "sample_with_evidence ops E evidence n s = (None, s3)"
    using E1 v1 by (simp add: sample_with_evidence_def Let_def cols_def [symmetric]
          s1_def [symmetric] s2_def [symmetric] s3_def [symmetric])
  have res: "sample_group_with_evidence ops E E evidence n s = (Inr (copy_group s3 sz off), s3)"
    using E1 v3 by (simp add: sample_group_with_evidence_def swe extract_group_def)
  define R where "R = copy_group s3 sz off"
  have shR: "shape_of R = (nat sz, cols, nat sz * cols)"
    unfolding R_def by (simp add: copy_group_shape b3)
  then have dims: "num_rows R = nat sz" "num_cols R = cols" and okR: "mat_ok R"
    by (simp_all add: shape_of_def mat_ok_def)
  have entR: "mat_at R i j = mat_at evidence i j" if "i < nat sz" "j < cols" for i j
    using copy_group_at [of i sz j s3 off] that ent3 [OF that] bounds(1)
    by (simp add: R_def b3 group_row_nonneg)
  have whole: "R = evidence" if "mat_ok evidence" "num_rows evidence = nat sz"
    using okR that dims entR by (intro mat_eqI) (simp_all add: cols_def)
  show ?thesis
    using res dims entR whole by (auto simp: R_def cols_def)
qed


theorem sample_group_with_evidence_clamped_witness:
  "(let s = (add_visible_groups [(1, RBMVUT_BINARY), (2, RBMVUT_GAUSSIAN)] (RBM_hidden 1 ([], [])))
              \<lparr>m_num_params := 7, m_params := [0, 0, 0, 0, 0, 0, 0]\<rparr>;
        ev = \<lparr>matrix = [1, 2, 3, 4], num_rows = 2, num_cols = 2\<rparr>
    in registry_inv s \<and> m_visible_group_sizes s = [1, 2] \<and>
       (0::int) \<le> 1 \<and> 1 < m_num_visible_groups s \<and> visible_ok s \<and>
       mat_ok ev \<and> num_rows ev = nat (m_visible_group_sizes s ! nat 1) \<and>
       fst (sample_group_with_evidence replay_ops 1 1 ev 2 s) = Inr ev)"
proof -
  let ?s = "(add_visible_groups [(1, RBMVUT_BINARY), (2, RBMVUT_GAUSSIAN)]
               (RBM_hidden 1 (([], []) :: real list \<times> int list)))
              \<lparr>m_num_params := 7, m_params := [0, 0, 0, 0, 0, 0, 0]\<rparr>"
  let ?ev = "\<lparr>matrix = [1, 2, 3, 4], num_rows = 2, num_cols = 2\<rparr>"
  have sizes: "m_visible_group_sizes ?s = [1, 2]"
    by (simp add: add_visible_groups_def build_simps)
  have h1: "registry_inv ?s"
    by (simp add: registry_inv_def add_visible_groups_def build_simps less_Suc_eq)
  have h2: "\<forall>k < length (m_visible_group_sizes ?s). 0 \<le> m_visible_group_sizes ?s ! k"
    by (simp add: sizes less_Suc_eq)
  have h3: "(0::int) \<le> 1" by simp
  have h4: "1 < m_num_visible_groups ?s"
    by (simp add: add_visible_groups_def build_simps)
  have h5: "visible_ok ?s"
    by (simp add: visible_ok_def add_visible_groups_def build_simps)
  have ev: "mat_ok ?ev" "num_rows ?ev = nat (m_visible_group_sizes ?s ! nat 1)"
    by (simp_all add: mat_ok_def sizes)
  from sample_group_with_evidence_clamped
         [OF h1 h2 h3 h4 h5, where ops = replay_ops and evidence = ?ev and n = 2] ev
  have "fst (sample_group_with_evidence replay_ops 1 1 ?ev 2 ?s) = Inr ?ev"
    by auto
  then show ?thesis
    using sizes h1 h4 h5 ev by (simp add: Let_def)
qed

text \<open>
  A group index at or above the number of groups is rejected by each of the three
  routines with the message of the \<open>require\<close>, and the state is the one of the call.
\<close>

lemma sample_group_index_above:
  assumes "m_num_visible_groups s \<le> V"
  shows "sample_group ops V n b s =
           (Inl (Fatal ''Visible group index ({}) out of bounds ({})'' [V, m_num_visible s]), s)"
  using assms by (simp add: sample_group_def)

lemma sample_with_evidence_index_above:
  assumes "m_num_visible_groups s \<le> E"
  shows "sample_with_evidence ops E evidence n s =
           (Some (Fatal ''Visible group index ({}) out of bounds ({})'' [E, m_num_visible s]), s)"
  using assms by (simp add: sample_with_evidence_def)

lemma sample_group_with_evidence_index_above:
  assumes "m_num_visible_groups s \<le> V \<or> m_num_visible_groups s \<le> E"
  shows "\<exists>I. fst (sample_group_with_evidence ops V E evidence n s) =
               Inl (Fatal ''Visible group index ({}) out of bounds ({})'' [I, m_num_visible s]) \<and>
             snd (sample_group_with_evidence ops V E evidence n s) = s"
  using assms by (auto simp add: sample_group_with_evidence_def)

subsection \<open>The Softmax groups of the visible mean\<close>


















subsection \<open>Concrete runs\<close>

text \<open>
  C1.  The regularization step of \<open>contrastive_divergence\<close> is claimed to touch exactly the
  entries of the weights view, \<open>[num_visible, num_visible + num_hidden * num_visible)\<close>.
  On a model with one visible and one hidden unit the weights view is the single entry 1
  and the hidden-bias view is entry 2; with \<open>l2_coefficient = 1\<close> and parameters
  \<open>[0, 7, 5]\<close> the step leaves entry 1 alone and adds the penalty \<open>1 * 5\<close> to entry 2: it
  works on the range that starts at \<open>num_visible + num_hidden\<close>.
\<close>

theorem regularization_outside_weight_block:
  "(let s = (RBM_hidden_visible 1 1 RBMVUT_BINARY ())
              \<lparr>l2_coefficient := 1, m_num_params := 3, m_params := [0, 7, 5]\<rparr>;
        w = get_weights s [0, 0, 0]
    in view_start w = 1 \<and> view_rows w * view_cols w = 1 \<and>
       view_start (get_hidden_bias s [0, 0, 0]) = 2 \<and>
       regularization s [0, 0, 0] = [0, 0, 5])"
  by (simp add: build_simps regularization_def get_weights_def get_hidden_bias_def)

text \<open>
  C2.  \<open>sample_visible(index, mean, result)\<close> on a Softmax group of three units with means
  \<open>0.2, 0.3, 0.5\<close> in one column.  The draw \<open>r\<close> of \<open>UniformIntDistribution<int32_t>(0, 1)\<close>
  is 0 or 1: for \<open>r = 0\<close> the first unit is set, for \<open>r = 1\<close> the last one, and the second
  unit, of mean 0.3, is set by no draw; the output is not distributed as the means.  When
  the mean is the result matrix itself, as in every call of this file, the means are
  zeroed before they are read, and the draw \<open>r = 1\<close> sets no unit at all.
\<close>

theorem sample_visible_softmax_not_categorical:
  "(let s = (RBM_hidden_visible 1 3 RBMVUT_SOFTMAX ([], []))\<lparr>m_batch_size := 1\<rparr>;
        mean = \<lparr>matrix = [0.2, 0.3, 0.5], num_rows = 3, num_cols = 1\<rparr>;
        result = \<lparr>matrix = [9, 9, 9], num_rows = 3, num_cols = 1\<rparr>
    in matrix (fst (sample_visible_group replay_ops s 0 (Distinct mean) result ([], [0]))) = [1, 0, 0] \<and>
       matrix (fst (sample_visible_group replay_ops s 0 (Distinct mean) result ([], [1]))) = [0, 0, 1] \<and>
       matrix (fst (sample_visible_group replay_ops s 0 Same_as_result mean ([], [0]))) = [1, 0, 0] \<and>
       matrix (fst (sample_visible_group replay_ops s 0 Same_as_result mean ([], [1]))) = [0, 0, 0])"
  by (simp add: build_simps sample_visible_group_def sample_softmax_block_def zero_block_def
        replay_ops_def mat_set_def mat_at_def mean_at_def group_row_def eval_nat_numeral)

text \<open>
  C8.  A group index outside \<open>[0, num_visible_groups)\<close> is claimed to fail fatally before
  any state is modified.  The three routines test \<open>V < m_num_visible_groups\<close> only, so the
  index \<open>-1\<close> passes: on a fresh model with one group, each of the three calls first sets
  the batch size to 1 and re-randomizes the visible state, and only then reads the group
  vectors at \<open>-1\<close>.
\<close>

theorem negative_group_index_not_rejected:
  "(let s = RBM_hidden_visible 1 1 RBMVUT_BINARY ([0.7], []);
        ev = \<lparr>matrix = [1], num_rows = 1, num_cols = 1\<rparr>;
        (r1, s1) = sample_group replay_ops (- 1) 0 1 s;
        (r2, s2) = sample_with_evidence replay_ops (- 1) ev 0 s;
        (r3, s3) = sample_group_with_evidence replay_ops (- 1) (- 1) ev 0 s
    in m_batch_size s = 0 \<and> visible_state s = empty_matrix \<and>
       r1 = Inl Undefined_access \<and> m_batch_size s1 = 1 \<and> matrix (visible_state s1) = [1] \<and>
       r2 = Some Undefined_access \<and> m_batch_size s2 = 1 \<and> matrix (visible_state s2) = [1] \<and>
       r3 = Inl Undefined_access \<and> m_batch_size s3 = 1 \<and> matrix (visible_state s3) = [1])"
  by (simp add: build_simps sample_group_def sample_with_evidence_def sample_group_with_evidence_def
        sample_def set_batch_size_def reset_chain_def chain_body_def extract_group_def vec_at_def
        replay_ops_def mat_set_def)

end
